theory Spec2Isabelle
  imports Complex_Main "HOL-Library.Sublist" "HOL-Library.Char_ord" "HOL-Library.List_Lexorder"
    "HOL-Library.Multiset"
begin

section \<open>RoadBot: the traffic feed normalizer, its cache and the intent router\<close>

text \<open>
  A shallow embedding of \<^verbatim>\<open>anwb.ts\<close> (classify, toClean, fetchIncidents) and of
  \<^verbatim>\<open>bot.ts\<close> (preprocessQuery, isIncidentOnRoute, getReply).

  Conventions of the embedding.
  \<^item> A JavaScript string is a \<^typ>\<open>string\<close>: a list of 8-bit characters. The ASCII part
    of \<^verbatim>\<open>toLowerCase\<close>, \<^verbatim>\<open>toUpperCase\<close>, \<^verbatim>\<open>trim\<close>, \<^verbatim>\<open>\s\<close>, \<^verbatim>\<open>\w\<close> and \<^verbatim>\<open>\b\<close> is
    modelled; bytes above 127 are left alone and count as non-word, non-space characters.
    The collation of \<^verbatim>\<open>localeCompare\<close> belongs to the platform.
  \<^item> A value read from the feed is a \<^verbatim>\<open>json\<close>; numbers of the feed are whole
    numbers (of at most 21 digits, which \<^verbatim>\<open>String\<close> prints in full), and
    \<^verbatim>\<open>raw.delay / 60\<close> is the exact quotient. \<^verbatim>\<open>undefined\<close> is \<open>None\<close> of \<open>json option\<close>.
  \<^item> A thrown exception is \<open>Inl\<close> of a sum; a returned value is \<open>Inr\<close>.
  \<^item> What the platform decides (the clock, the network, the random identifiers, the
    date formatter, the conversion of a text to a number, the language model) is a
    field of the record \<^verbatim>\<open>env\<close>; what the program mutates (the cache slot) and the
    counters of the calls made to the platform are fields of the record \<^verbatim>\<open>world\<close>.
\<close>

subsection \<open>Strings\<close>

definition isUpperAscii :: "char \<Rightarrow> bool" where
  "isUpperAscii c = (65 \<le> (of_char c :: nat) \<and> (of_char c :: nat) \<le> 90)"

definition isLowerAscii :: "char \<Rightarrow> bool" where
  "isLowerAscii c = (97 \<le> (of_char c :: nat) \<and> (of_char c :: nat) \<le> 122)"

definition isDigitAscii :: "char \<Rightarrow> bool" where
  "isDigitAscii c = (48 \<le> (of_char c :: nat) \<and> (of_char c :: nat) \<le> 57)"

definition lowerChar :: "char \<Rightarrow> char" where
  "lowerChar c = (if isUpperAscii c then char_of ((of_char c :: nat) + 32) else c)"

definition upperChar :: "char \<Rightarrow> char" where
  "upperChar c = (if isLowerAscii c then char_of ((of_char c :: nat) - 32) else c)"

definition toLowerCase :: "string \<Rightarrow> string" where
  "toLowerCase s = map lowerChar s"

definition toUpperCase :: "string \<Rightarrow> string" where
  "toUpperCase s = map upperChar s"

text \<open>The class \<^verbatim>\<open>\s\<close> and the characters \<^verbatim>\<open>trim\<close> removes: tab, line feed, vertical
  tab, form feed, carriage return, space.\<close>

definition isSpace :: "char \<Rightarrow> bool" where
  "isSpace c = ((of_char c :: nat) \<in> {9, 10, 11, 12, 13, 32})"

text \<open>The class \<^verbatim>\<open>\w\<close>: letters, digits and the underscore.\<close>

definition isWord :: "char \<Rightarrow> bool" where
  "isWord c = (isUpperAscii c \<or> isLowerAscii c \<or> isDigitAscii c \<or> (of_char c :: nat) = 95)"

definition trim :: "string \<Rightarrow> string" where
  "trim s = rev (dropWhile isSpace (rev (dropWhile isSpace s)))"

text \<open>\<^verbatim>\<open>/p/.test(s)\<close> for a pattern \<open>p\<close> of literal characters: \<open>p\<close> occurs in \<open>s\<close>.\<close>

fun contains :: "string \<Rightarrow> string \<Rightarrow> bool" where
  "contains p [] = (p = [])"
| "contains p (c # cs) = (prefix p (c # cs) \<or> contains p cs)"

text \<open>\<^verbatim>\<open>/p1|p2|.../.test(s)\<close>: some alternative occurs in \<open>s\<close>.\<close>

definition testAny :: "string list \<Rightarrow> string \<Rightarrow> bool" where
  "testAny ps s = list_ex (\<lambda>p. contains p s) ps"

text \<open>Decimal numerals, as \<^verbatim>\<open>String(n)\<close> prints a whole number.\<close>

fun showNat :: "nat \<Rightarrow> string" where
  "showNat n = (if n < 10 then [char_of (48 + n)] else showNat (n div 10) @ [char_of (48 + n mod 10)])"

definition showInt :: "int \<Rightarrow> string" where
  "showInt i = (if i < 0 then CHR ''-'' # showNat (nat (- i)) else showNat (nat i))"

text \<open>The arrow U+2192 and the en dash U+2013 of the source's templates, in UTF-8.\<close>

definition arrow :: string where
  "arrow = [char_of (226 :: nat), char_of (134 :: nat), char_of (146 :: nat)]"

definition endash :: string where
  "endash = [char_of (226 :: nat), char_of (128 :: nat), char_of (147 :: nat)]"

subsection \<open>Values of the feed\<close>

datatype json =
    JNull
  | JBool bool
  | JNum int
  | JStr string
  | JArr "json list"
  | JObj "(string \<times> json) list"

type_synonym jsval = "json option"

type_synonym obj = "(string \<times> json) list"

datatype error =
    NetworkError
  | HttpError nat
  | SyntaxError
  | TypeError
  | ZodError

text \<open>\<^verbatim>\<open>o.k\<close> on an object literal or a parsed object.\<close>

definition get :: "obj \<Rightarrow> string \<Rightarrow> jsval" where
  "get kvs k = map_of kvs k"

text \<open>\<^verbatim>\<open>v.k\<close> on any value, for the property names the program reads (none of them is
  a property of a string, an array, a number or a boolean): \<^verbatim>\<open>null\<close> and
  \<^verbatim>\<open>undefined\<close> throw a TypeError.\<close>

fun getProp :: "jsval \<Rightarrow> string \<Rightarrow> error + jsval" where
  "getProp None k = Inl TypeError"
| "getProp (Some JNull) k = Inl TypeError"
| "getProp (Some (JObj kvs)) k = Inr (get kvs k)"
| "getProp (Some v) k = Inr None"

text \<open>\<^verbatim>\<open>a ?? b\<close>.\<close>

fun coalesce :: "jsval \<Rightarrow> jsval \<Rightarrow> jsval" where
  "coalesce None b = b"
| "coalesce (Some JNull) b = b"
| "coalesce (Some v) b = Some v"

text \<open>The values \<^verbatim>\<open>??\<close> replaces: \<^verbatim>\<open>undefined\<close> and \<^verbatim>\<open>null\<close>.\<close>

definition nullish :: "jsval \<Rightarrow> bool" where
  "nullish v \<longleftrightarrow> v = None \<or> v = Some JNull"

text \<open>The truth value of a value in a condition.\<close>

fun truthy :: "jsval \<Rightarrow> bool" where
  "truthy None = False"
| "truthy (Some JNull) = False"
| "truthy (Some (JBool b)) = b"
| "truthy (Some (JNum n)) = (n \<noteq> 0)"
| "truthy (Some (JStr s)) = (s \<noteq> [])"
| "truthy (Some v) = True"

definition join :: "string \<Rightarrow> string list \<Rightarrow> string" where
  "join sep xs = (case xs of [] \<Rightarrow> [] | y # ys \<Rightarrow> foldl (\<lambda>acc z. acc @ sep @ z) y ys)"

text \<open>\<^verbatim>\<open>String(v)\<close> and the conversion inside a template literal.\<close>

fun toString :: "json \<Rightarrow> string" where
  "toString JNull = ''null''"
| "toString (JBool b) = (if b then ''true'' else ''false'')"
| "toString (JNum n) = showInt n"
| "toString (JStr s) = s"
| "toString (JArr xs) = join '','' (map (\<lambda>x. if x = JNull then [] else toString x) xs)"
| "toString (JObj kvs) = ''[object Object]''"

definition toStr :: "jsval \<Rightarrow> string" where
  "toStr v = (case v of None \<Rightarrow> ''undefined'' | Some j \<Rightarrow> toString j)"

text \<open>The own enumerable properties \<^verbatim>\<open>{...v}\<close> copies.\<close>

fun spread :: "jsval \<Rightarrow> obj" where
  "spread (Some (JObj kvs)) = kvs"
| "spread (Some (JArr xs)) = zip (map showNat [0 ..< length xs]) xs"
| "spread (Some (JStr s)) = zip (map showNat [0 ..< length s]) (map (\<lambda>c. JStr [c]) s)"
| "spread v = []"

text \<open>The elements \<^verbatim>\<open>for (const x of v ?? [])\<close> visits: those of an array, the
  characters of a string, nothing for \<^verbatim>\<open>null\<close> and \<^verbatim>\<open>undefined\<close>; any other value
  is not iterable.\<close>

fun elements :: "jsval \<Rightarrow> error + json list" where
  "elements None = Inr []"
| "elements (Some JNull) = Inr []"
| "elements (Some (JArr xs)) = Inr xs"
| "elements (Some (JStr s)) = Inr (map (\<lambda>c. JStr [c]) s)"
| "elements (Some v) = Inl TypeError"

text \<open>\<^verbatim>\<open>v ?? d\<close> where the default \<open>d\<close> is a value.\<close>

fun orElse :: "jsval \<Rightarrow> json \<Rightarrow> json" where
  "orElse None d = d"
| "orElse (Some JNull) d = d"
| "orElse (Some v) d = v"

subsection \<open>The canonical incident\<close>

datatype category = Accident | Construction | Congestion | Obstruction | Weather | Other

datatype status = Open | Closed

datatype bucket = TrafficJams | RoadWorks | Radars

text \<open>The schema \<^verbatim>\<open>CleanIncident\<close>: \<open>None\<close> is an omitted optional field.\<close>

record Clean =
  id' :: string
  road :: string
  location :: string
  category :: category
  status :: status
  closure :: "string option"
  delay :: "int option"
  startISO :: "string option"

text \<open>The name of a category, as the strings of the schema's enumeration.\<close>

fun categoryName :: "category \<Rightarrow> string" where
  "categoryName Accident = ''accident''"
| "categoryName Construction = ''construction''"
| "categoryName Congestion = ''congestion''"
| "categoryName Obstruction = ''obstruction''"
| "categoryName Weather = ''weather''"
| "categoryName Other = ''other''"

subsection \<open>The conversation and the platform\<close>

datatype role = User | Assistant

record TMessage =
  role :: role
  content :: string

text \<open>The declared result of \<^verbatim>\<open>extractEntities\<close>: every key is optional.\<close>

record entities =
  roads :: "string list option"
  categories :: "string list option"
  origin :: "string option"
  destination :: "string option"

text \<open>What \<^verbatim>\<open>fetch\<close> and \<^verbatim>\<open>res.json()\<close> give: the request is rejected (no
  connection), or a response arrives with its \<^verbatim>\<open>ok\<close> flag and its body, \<open>None\<close>
  when the body is not JSON.\<close>

datatype response = Rejected | Response bool "json option"

text \<open>
  The platform. \<open>Date_now k\<close> is the reading of the \<open>k\<close>-th call of \<^verbatim>\<open>Date.now()\<close>
  (milliseconds), \<open>fetch k\<close> the outcome of the \<open>k\<close>-th request to the feed,
  \<open>randomUUID k\<close> the \<open>k\<close>-th token of \<^verbatim>\<open>crypto.randomUUID()\<close>, \<open>toLocaleString v\<close>
  the text of \<^verbatim>\<open>new Date(v).toLocaleString('nl-NL', ...)\<close>, \<open>StringToNumber s\<close> the
  number a text converts to (\<open>None\<close> is NaN), \<open>localeCompare s t\<close> the number that
  \<^verbatim>\<open>s.localeCompare(t)\<close> gives in the collation of the platform's locale. The last
  four fields are the
  capabilities of \<^verbatim>\<open>llm.ts\<close>, which call the language model and never throw.
\<close>

record env =
  Date_now :: "nat \<Rightarrow> int"
  fetch :: "nat \<Rightarrow> response"
  randomUUID :: "nat \<Rightarrow> string"
  toLocaleString :: "json \<Rightarrow> string"
  StringToNumber :: "string \<Rightarrow> rat option"
  localeCompare :: "string \<Rightarrow> string \<Rightarrow> int"
  extractEntities :: "string \<Rightarrow> TMessage list \<Rightarrow> entities"
  answerFromIncidents :: "string \<Rightarrow> Clean list \<Rightarrow> TMessage list \<Rightarrow> entities \<Rightarrow> string"
  summarizeIncidentsForRoute :: "Clean list \<Rightarrow> string \<Rightarrow> string \<Rightarrow> string"
  nonTrafficReply :: "string \<Rightarrow> TMessage list \<Rightarrow> string"

text \<open>A call of a capability of the language model, with its arguments.\<close>

datatype call =
    CallExtract string "TMessage list"
  | CallAnswer string "Clean list" "TMessage list" entities
  | CallSummarize "Clean list" string string
  | CallNonTraffic string "TMessage list"

text \<open>The module's state: the cache slot \<^verbatim>\<open>{ ts, data }\<close> (\<open>None\<close> is \<^verbatim>\<open>null\<close>), and
  the calls made so far to the clock, the feed, the token generator and the model.\<close>

record world =
  cache :: "(int \<times> Clean list) option"
  clock_reads :: nat
  fetch_calls :: nat
  uuid_calls :: nat
  llm_calls :: "call list"

subsection \<open>Classify and clean\<close>

definition classify :: "obj \<Rightarrow> bucket \<Rightarrow> category" where
  "classify raw bucket =
     (let txt = toLowerCase (toString (orElse (get raw ''reason'') (JStr [])) @ '' '' @
                             toString (orElse (get raw ''description'') (JStr [])))
      in if bucket = RoadWorks then Construction
         else if testAny [''ongeval'', ''botsing'', ''crash''] txt then Accident
         else if testAny [''mist'', ''gladheid'', ''wateroverlast'', ''storm''] txt then Weather
         else if testAny [''obstakel'', ''stilgevallen'', ''verlies van lading''] txt then Obstruction
         else if bucket = TrafficJams then Congestion
         else Other)"

text \<open>\<^verbatim>\<open>Math.round\<close>: the nearest whole number, a half going up.\<close>

definition Math_round :: "rat \<Rightarrow> int" where
  "Math_round x = \<lfloor>x + 1 / 2\<rfloor>"

text \<open>The number a value converts to in \<^verbatim>\<open>raw.delay / 60\<close>; an array or an object
  converts through its text.\<close>

fun ToNumber :: "env \<Rightarrow> json \<Rightarrow> rat option" where
  "ToNumber E JNull = Some 0"
| "ToNumber E (JBool b) = Some (if b then 1 else 0)"
| "ToNumber E (JNum n) = Some (of_int n)"
| "ToNumber E (JStr s) = StringToNumber E s"
| "ToNumber E v = StringToNumber E (toString v)"

text \<open>The object literal handed to \<^verbatim>\<open>CleanIncident.parse\<close>. Of \<open>in_delay\<close>, \<open>None\<close>
  is \<^verbatim>\<open>undefined\<close>, \<open>Some None\<close> is NaN.\<close>

record CleanInput =
  in_id :: string
  in_road :: jsval
  in_location :: json
  in_category :: category
  in_status :: status
  in_closure :: "string option"
  in_delay :: "int option option"
  in_startISO :: jsval

text \<open>\<^verbatim>\<open>CleanIncident.parse\<close>: \<^verbatim>\<open>road\<close> and \<^verbatim>\<open>location\<close> must be strings, \<^verbatim>\<open>delay\<close> a
  number that is not NaN when given, \<^verbatim>\<open>startISO\<close> a string when given; anything else
  throws a ZodError.\<close>

definition CleanIncident_parse :: "CleanInput \<Rightarrow> error + Clean" where
  "CleanIncident_parse x =
     (case (in_road x, in_location x) of
        (Some (JStr r), JStr l) \<Rightarrow>
          if in_delay x = Some None then Inl ZodError
          else (case in_startISO x of
                  None \<Rightarrow>
                    Inr \<lparr>id' = in_id x, road = r, location = l, category = in_category x,
                         status = in_status x, closure = in_closure x,
                         delay = (case in_delay x of None \<Rightarrow> None | Some d \<Rightarrow> d),
                         startISO = None\<rparr>
                | Some (JStr s) \<Rightarrow>
                    Inr \<lparr>id' = in_id x, road = r, location = l, category = in_category x,
                         status = in_status x, closure = in_closure x,
                         delay = (case in_delay x of None \<Rightarrow> None | Some d \<Rightarrow> d),
                         startISO = Some s\<rparr>
                | Some v \<Rightarrow> Inl ZodError)
      | other \<Rightarrow> Inl ZodError)"

text \<open>A computation that may draw tokens: it takes the number of tokens drawn so far
  and returns it updated, with a value or the exception thrown.\<close>

type_synonym 'a gen = "nat \<Rightarrow> (error + 'a) \<times> nat"

definition ret :: "'a \<Rightarrow> 'a gen" where
  "ret x n = (Inr x, n)"

definition lift :: "error + 'a \<Rightarrow> 'a gen" where
  "lift r n = (r, n)"

definition bind :: "'a gen \<Rightarrow> ('a \<Rightarrow> 'b gen) \<Rightarrow> 'b gen" where
  "bind m f n = (case m n of (Inl e, n') \<Rightarrow> (Inl e, n') | (Inr x, n') \<Rightarrow> f x n')"

text \<open>\<^verbatim>\<open>String(raw.id ?? raw.msgNr ?? crypto.randomUUID())\<close>: a token is drawn only when
  both are missing.\<close>

definition idOf :: "env \<Rightarrow> obj \<Rightarrow> string gen" where
  "idOf E raw n =
     (case coalesce (coalesce (get raw ''id'') (get raw ''msgNr'')) None of
        Some v \<Rightarrow> (Inr (toString v), n)
      | None \<Rightarrow> (Inr (randomUUID E n), Suc n))"

definition toClean :: "env \<Rightarrow> obj \<Rightarrow> bucket \<Rightarrow> jsval \<Rightarrow> Clean gen" where
  "toClean E raw bucket rd =
     (let closed = contains ''dicht''
            (toString (orElse (coalesce (get raw ''reason'') (get raw ''description'')) (JStr [])));
          closure' =
            (case (get raw ''start'', get raw ''stop'') of
               (Some a, Some b) \<Rightarrow>
                 if truthy (Some a) \<and> truthy (Some b)
                 then Some (toLocaleString E a @ '' '' @ endash @ '' '' @ toLocaleString E b)
                 else None
             | other \<Rightarrow> None)
      in bind (idOf E raw) (\<lambda>i.
         lift (CleanIncident_parse
           \<lparr>in_id = i,
            in_road = rd,
            in_location =
              orElse (get raw ''location'')
                (JStr (trim (toStr rd @ '' '' @ toString (orElse (get raw ''from'') (JStr [])) @ arrow @
                             toString (orElse (get raw ''to'') (JStr []))))),
            in_category = classify raw bucket,
            in_status = (if closed then Closed else Open),
            in_closure = closure',
            in_delay =
              (case get raw ''delay'' of
                 None \<Rightarrow> None
               | Some d \<Rightarrow>
                   if truthy (Some d)
                   then Some (case ToNumber E d of None \<Rightarrow> None | Some x \<Rightarrow> Some (Math_round (x / 60)))
                   else None),
            in_startISO = coalesce (coalesce (get raw ''start'') (get raw ''timestamp'')) None\<rparr>)))"

subsection \<open>Fetch and flatten the feed\<close>

text \<open>A loop that pushes onto \<^verbatim>\<open>clean\<close>: the incidents of each element in order; an
  exception ends it.\<close>

fun forEach :: "('a \<Rightarrow> Clean list gen) \<Rightarrow> 'a list \<Rightarrow> Clean list gen" where
  "forEach f [] = ret []"
| "forEach f (x # xs) = bind (f x) (\<lambda>ys. bind (forEach f xs) (\<lambda>zs. ret (ys @ zs)))"

text \<open>The body of the three inner loops:
  \<^verbatim>\<open>clean.push(toClean({ ...item, location: item.location ?? `${road} ${segmentStart}->${segmentEnd}` }, bucket, road))\<close>.\<close>

definition pushItem :: "env \<Rightarrow> bucket \<Rightarrow> jsval \<Rightarrow> json \<Rightarrow> json \<Rightarrow> json \<Rightarrow> Clean list gen" where
  "pushItem E bucket rd segmentStart segmentEnd item =
     bind (lift (getProp (Some item) ''location'')) (\<lambda>loc.
     bind (toClean E
             ((''location'',
               orElse loc (JStr (toStr rd @ '' '' @ toString segmentStart @ arrow @ toString segmentEnd)))
              # spread (Some item))
             bucket rd) (\<lambda>c.
     ret [c]))"

definition itemsOf :: "env \<Rightarrow> bucket \<Rightarrow> jsval \<Rightarrow> json \<Rightarrow> json \<Rightarrow> json \<Rightarrow> string \<Rightarrow> Clean list gen" where
  "itemsOf E bucket rd segmentStart segmentEnd segment k =
     bind (lift (getProp (Some segment) k)) (\<lambda>v.
     bind (lift (elements v)) (\<lambda>items.
     forEach (pushItem E bucket rd segmentStart segmentEnd) items))"

text \<open>The body of the loop over the segments of a road.\<close>

definition segmentItems :: "env \<Rightarrow> jsval \<Rightarrow> json \<Rightarrow> Clean list gen" where
  "segmentItems E rd segment =
     bind (lift (getProp (Some segment) ''start'')) (\<lambda>s.
     bind (lift (getProp (Some segment) ''end'')) (\<lambda>e.
     (let segmentStart = orElse s (JStr []); segmentEnd = orElse e (JStr [])
      in bind (itemsOf E TrafficJams rd segmentStart segmentEnd segment ''jams'') (\<lambda>a.
         bind (itemsOf E RoadWorks rd segmentStart segmentEnd segment ''roadworks'') (\<lambda>b.
         bind (itemsOf E Radars rd segmentStart segmentEnd segment ''radars'') (\<lambda>c.
         ret (a @ b @ c)))))))"

text \<open>The body of the loop over \<^verbatim>\<open>json.roads\<close>.\<close>

definition roadItems :: "env \<Rightarrow> json \<Rightarrow> Clean list gen" where
  "roadItems E roadEntry =
     bind (lift (getProp (Some roadEntry) ''road'')) (\<lambda>rd.
     bind (lift (getProp (Some roadEntry) ''segments'')) (\<lambda>v.
     bind (lift (elements v)) (\<lambda>segments.
     forEach (segmentItems E rd) segments)))"

text \<open>The three nested loops of \<^verbatim>\<open>fetchIncidents\<close>: the list \<^verbatim>\<open>clean\<close> before it is
  sorted.\<close>

definition flatten :: "env \<Rightarrow> json \<Rightarrow> Clean list gen" where
  "flatten E js =
     bind (lift (getProp (Some js) ''roads'')) (\<lambda>v.
     bind (lift (elements v)) (\<lambda>roadEntries.
     forEach (roadItems E) roadEntries))"

text \<open>\<^verbatim>\<open>Array.prototype.sort\<close> with a comparator: a stable sort, here by insertion. The
  result of the platform's sort is determined, and is this one, when the comparator is
  consistent.\<close>

fun insertBy :: "('a \<Rightarrow> 'a \<Rightarrow> int) \<Rightarrow> 'a \<Rightarrow> 'a list \<Rightarrow> 'a list" where
  "insertBy cmp x [] = [x]"
| "insertBy cmp x (y # ys) = (if cmp x y \<le> 0 then x # y # ys else y # insertBy cmp x ys)"

definition sortBy :: "('a \<Rightarrow> 'a \<Rightarrow> int) \<Rightarrow> 'a list \<Rightarrow> 'a list" where
  "sortBy cmp xs = foldr (insertBy cmp) xs []"

text \<open>\<^verbatim>\<open>a.startISO ?? ''\<close>.\<close>

definition startKey :: "Clean \<Rightarrow> string" where
  "startKey a = (case startISO a of None \<Rightarrow> [] | Some s \<Rightarrow> s)"

text \<open>The comparator \<^verbatim>\<open>(a, b) => (b.startISO ?? '').localeCompare(a.startISO ?? '')\<close>.\<close>

definition byStartDesc :: "env \<Rightarrow> Clean \<Rightarrow> Clean \<Rightarrow> int" where
  "byStartDesc E a b = localeCompare E (startKey b) (startKey a)"

text \<open>Normalize, flatten and sort one payload.\<close>

definition normalizeFeed :: "env \<Rightarrow> json \<Rightarrow> Clean list gen" where
  "normalizeFeed E js = bind (flatten E js) (\<lambda>clean. ret (sortBy (byStartDesc E) clean))"

definition fetchIncidents :: "env \<Rightarrow> world \<Rightarrow> (error + Clean list) \<times> world" where
  "fetchIncidents E w =
     (let (hit, w1) =
            (case cache w of
               None \<Rightarrow> (None, w)
             | Some (ts, data) \<Rightarrow>
                 (if Date_now E (clock_reads w) - ts < 60000 then Some data else None,
                  w\<lparr>clock_reads := Suc (clock_reads w)\<rparr>))
      in case hit of
           Some data \<Rightarrow> (Inr data, w1)
         | None \<Rightarrow>
             (let w2 = w1\<lparr>fetch_calls := Suc (fetch_calls w1)\<rparr>
              in case fetch E (fetch_calls w1) of
                   Rejected \<Rightarrow> (Inl NetworkError, w2)
                 | Response ok body \<Rightarrow>
                     if \<not> ok then (Inl (HttpError 502), w2)
                     else (case body of
                             None \<Rightarrow> (Inl SyntaxError, w2)
                           | Some js \<Rightarrow>
                               (case normalizeFeed E js (uuid_calls w2) of
                                  (Inl e, n) \<Rightarrow> (Inl e, w2\<lparr>uuid_calls := n\<rparr>)
                                | (Inr clean, n) \<Rightarrow>
                                    (Inr clean,
                                     w2\<lparr>uuid_calls := n,
                                        cache := Some (Date_now E (clock_reads w2), clean),
                                        clock_reads := Suc (clock_reads w2)\<rparr>)))))"

subsection \<open>The regular expressions of the router\<close>

text \<open>A literal of a pattern with the flag \<^verbatim>\<open>i\<close>, at the head of \<open>s\<close>: what follows
  it, when it matches. The literal is given in lower case.\<close>

definition lit :: "string \<Rightarrow> string \<Rightarrow> string option" where
  "lit p s = (if toLowerCase (take (length p) s) = p then Some (drop (length p) s) else None)"

text \<open>\<^verbatim>\<open>\b\<close> after a word character, before the rest \<open>s\<close> of the text.\<close>

definition boundaryEnd :: "string \<Rightarrow> bool" where
  "boundaryEnd s = (case s of [] \<Rightarrow> True | c # cs \<Rightarrow> \<not> isWord c)"

text \<open>\<^verbatim>\<open>\b\<close> before a word character, after the character \<open>prev\<close> (\<open>None\<close> at the
  start of the text).\<close>

definition boundaryStart :: "char option \<Rightarrow> bool" where
  "boundaryStart prev = (case prev of None \<Rightarrow> True | Some c \<Rightarrow> \<not> isWord c)"

text \<open>A matcher gives the length of the match at the head of the text. \<open>wordAt p\<close> is
  \<^verbatim>\<open>p\b\<close>.\<close>

definition wordAt :: "string \<Rightarrow> string \<Rightarrow> nat option" where
  "wordAt p s =
     (case lit p s of
        None \<Rightarrow> None
      | Some r \<Rightarrow> if boundaryEnd r then Some (length p) else None)"

text \<open>Alternatives \<^verbatim>\<open>m1|m2|...\<close>: the first that matches.\<close>

fun firstOf :: "(string \<Rightarrow> nat option) list \<Rightarrow> string \<Rightarrow> nat option" where
  "firstOf [] s = None"
| "firstOf (m # ms) s = (case m s of Some n \<Rightarrow> Some n | None \<Rightarrow> firstOf ms s)"

text \<open>\<^verbatim>\<open>road\s?works?\b\<close>. A greedy optional item that is given back cannot help here:
  the next item would have to match the space, or the boundary to stand before an
  \<^verbatim>\<open>s\<close>.\<close>

definition roadWorksAt :: "string \<Rightarrow> nat option" where
  "roadWorksAt s =
     (case lit ''road'' s of
        None \<Rightarrow> None
      | Some r1 \<Rightarrow>
          (let r2 = (case r1 of [] \<Rightarrow> r1 | c # r \<Rightarrow> if isSpace c then r else r1)
           in case lit ''work'' r2 of
                None \<Rightarrow> None
              | Some r3 \<Rightarrow>
                  (let r4 = (case lit ''s'' r3 of None \<Rightarrow> r3 | Some r \<Rightarrow> r)
                   in if boundaryEnd r4 then Some (length s - length r4) else None)))"

text \<open>\<^verbatim>\<open>on\s+roads?\b\<close>.\<close>

definition onRoadsAt :: "string \<Rightarrow> nat option" where
  "onRoadsAt s =
     (case lit ''on'' s of
        None \<Rightarrow> None
      | Some r1 \<Rightarrow>
          (let r2 = dropWhile isSpace r1
           in if length r2 = length r1 then None
              else case lit ''road'' r2 of
                     None \<Rightarrow> None
                   | Some r3 \<Rightarrow>
                       (let r4 = (case lit ''s'' r3 of None \<Rightarrow> r3 | Some r \<Rightarrow> r)
                        in if boundaryEnd r4 then Some (length s - length r4) else None)))"

text \<open>\<^verbatim>\<open>text.replace(/\b(...)\b/gi, rep)\<close> for a matcher of words: the text is read from
  the left; where the matcher matches after a boundary, the match is replaced and
  reading goes on behind it.\<close>

fun replaceAll :: "(string \<Rightarrow> nat option) \<Rightarrow> string \<Rightarrow> char option \<Rightarrow> string \<Rightarrow> string" where
  "replaceAll m rep prev [] = []"
| "replaceAll m rep prev (c # cs) =
     (case (if boundaryStart prev then m (c # cs) else None) of
        Some (Suc k) \<Rightarrow> rep @ replaceAll m rep (Some (last (c # take k cs))) (drop k cs)
      | other \<Rightarrow> c # replaceAll m rep (Some c) cs)"

text \<open>\<^verbatim>\<open>greetingRE.test(q)\<close> for
  \<^verbatim>\<open>/^(hi|hello|hey|hallo|good\s(morning|afternoon|evening))\b/i\<close>.\<close>

definition goodAt :: "string \<Rightarrow> nat option" where
  "goodAt s =
     (case lit ''good'' s of
        Some (c # r) \<Rightarrow>
          if isSpace c
          then (case firstOf [wordAt ''morning'', wordAt ''afternoon'', wordAt ''evening''] r of
                  None \<Rightarrow> None
                | Some n \<Rightarrow> Some (5 + n))
          else None
      | other \<Rightarrow> None)"

definition greetingRE :: "string \<Rightarrow> bool" where
  "greetingRE q =
     (firstOf [wordAt ''hi'', wordAt ''hello'', wordAt ''hey'', wordAt ''hallo'', goodAt] q \<noteq> None)"

subsection \<open>The router\<close>

definition preprocessQuery :: "string \<Rightarrow> TMessage list \<Rightarrow> string" where
  "preprocessQuery query history =
     (let processedQuery = query;
          processedQuery = replaceAll (wordAt ''jams'') ''congestion'' None processedQuery;
          processedQuery =
            replaceAll (firstOf [roadWorksAt, wordAt ''building'']) ''construction'' None processedQuery;
          processedQuery =
            replaceAll
              (firstOf [wordAt ''problems'', wordAt ''issues'', wordAt ''inconveniences'',
                        wordAt ''disruptions''])
              ''all_categories'' None processedQuery;
          processedQuery =
            replaceAll
              (firstOf [onRoadsAt, wordAt ''everywhere'', wordAt ''general'', wordAt ''overall''])
              ''all_categories'' None processedQuery
      in processedQuery)"

text \<open>The table inside \<^verbatim>\<open>isIncidentOnRoute\<close>.\<close>

definition routeMap :: "(string \<times> string list) list" where
  "routeMap =
     [(''vlissingen-amsterdam'', [''A58'', ''A4'', ''A2'', ''A10'', ''N57'', ''N59'']),
      (''amsterdam-rotterdam'', [''A4'', ''A2'', ''A13''])]"

definition isIncidentOnRoute :: "Clean \<Rightarrow> string \<Rightarrow> string \<Rightarrow> bool" where
  "isIncidentOnRoute incident orig dest =
     (let normalizedOrigin = trim (toLowerCase orig);
          normalizedDestination = trim (toLowerCase dest);
          routeKey = normalizedOrigin @ ''-'' @ normalizedDestination;
          relevantRoads = (case map_of routeMap routeKey of None \<Rightarrow> [] | Some rs \<Rightarrow> rs)
      in toUpperCase (road incident) \<in> set relevantRoads)"

text \<open>\<^verbatim>\<open>getReply\<close>. The set \<^verbatim>\<open>new Set(xs)\<close> answers \<^verbatim>\<open>has\<close> as membership in \<open>xs\<close>;
  an array is true in a condition, also when it is empty, and a string is true when
  it is not empty. Every call of a capability of the model is appended to
  \<open>llm_calls\<close>; \<^verbatim>\<open>console.log\<close> is left out. Nothing catches what \<^verbatim>\<open>fetchIncidents\<close>
  throws.\<close>

definition getReply :: "env \<Rightarrow> string \<Rightarrow> TMessage list \<Rightarrow> world \<Rightarrow> (error + string) \<times> world" where
  "getReply E query history w =
     (let q = trim query
      in if q = [] then (Inr ''I didn't receive a message. Please try again.'', w)
         else if greetingRE q
         then (Inr ''Hello! How can I assist you with traffic information today?'', w)
         else
           (let processedQuery = preprocessQuery q history;
                ents = extractEntities E processedQuery history;
                w1 = w\<lparr>llm_calls := llm_calls w @ [CallExtract processedQuery history]\<rparr>
            in case fetchIncidents E w1 of
                 (Inl e, w2) \<Rightarrow> (Inl e, w2)
               | (Inr allIncidents, w2) \<Rightarrow>
                   if roads ents \<noteq> None \<or> categories ents \<noteq> None
                   then
                     (let relevantIncidents = allIncidents;
                          relevantIncidents =
                            (case roads ents of
                               None \<Rightarrow> relevantIncidents
                             | Some rs \<Rightarrow>
                                 if length rs > 0
                                 then (let roadSet = map toUpperCase rs
                                       in filter (\<lambda>i. toUpperCase (road i) \<in> set roadSet)
                                            relevantIncidents)
                                 else relevantIncidents);
                          relevantIncidents =
                            (case categories ents of
                               None \<Rightarrow> relevantIncidents
                             | Some cs \<Rightarrow>
                                 if length cs > 0
                                 then (let categoriesToFilter =
                                             (if ''all_categories'' \<in> set cs
                                              then [''accident'', ''construction'', ''congestion'',
                                                    ''obstruction'', ''weather'']
                                              else cs)
                                       in filter (\<lambda>i. categoryName (category i) \<in> set categoriesToFilter)
                                            relevantIncidents)
                                 else relevantIncidents)
                      in (Inr (answerFromIncidents E q relevantIncidents history ents),
                          w2\<lparr>llm_calls :=
                               llm_calls w2 @ [CallAnswer q relevantIncidents history ents]\<rparr>))
                   else
                     (case (origin ents, destination ents) of
                        (Some a, Some b) \<Rightarrow>
                          if a \<noteq> [] \<and> b \<noteq> []
                          then
                            (let relevantIncidents =
                                   filter (\<lambda>inc. isIncidentOnRoute inc a b) allIncidents
                             in (Inr (summarizeIncidentsForRoute E relevantIncidents a b),
                                 w2\<lparr>llm_calls :=
                                      llm_calls w2 @ [CallSummarize relevantIncidents a b]\<rparr>))
                          else (Inr (nonTrafficReply E q history),
                                w2\<lparr>llm_calls := llm_calls w2 @ [CallNonTraffic q history]\<rparr>)
                      | other \<Rightarrow>
                          (Inr (nonTrafficReply E q history),
                           w2\<lparr>llm_calls := llm_calls w2 @ [CallNonTraffic q history]\<rparr>))))"

subsection \<open>The text the classifier reads, and concrete inputs\<close>

text \<open>The raw text of an item, as the specification names it: the reason and the
  description joined by a space, in lower case.\<close>

definition rawText :: "obj \<Rightarrow> string" where
  "rawText raw = toLowerCase (toString (orElse (get raw ''reason'') (JStr [])) @ '' '' @
                             toString (orElse (get raw ''description'') (JStr [])))"

text \<open>Two collations. The first compares the character codes, as the order of strings
  does. The second differs from it on two characters, on which it follows the
  collation of the platform's locales: the hyphen sorts below the plus sign.\<close>

definition codeCompare :: "string \<Rightarrow> string \<Rightarrow> int" where
  "codeCompare s t = (if s < t then - 1 else if s = t then 0 else 1)"

definition collationWeight :: "char \<Rightarrow> nat" where
  "collationWeight c =
     (if c = CHR ''-'' then 43 else if c = CHR ''+'' then 45 else of_char c)"

definition hyphenFirstCompare :: "string \<Rightarrow> string \<Rightarrow> int" where
  "hyphenFirstCompare s t =
     (if map collationWeight s < map collationWeight t then - 1
      else if map collationWeight s = map collationWeight t then 0 else 1)"

text \<open>A consistent comparator of strings: the sign turns with the arguments, and
  the relation of not coming after is transitive.\<close>

definition consistent :: "(string \<Rightarrow> string \<Rightarrow> int) \<Rightarrow> bool" where
  "consistent lc \<longleftrightarrow>
     (\<forall>s t. sgn (lc t s) = - sgn (lc s t)) \<and>
     (\<forall>s t u. lc s t \<le> 0 \<and> lc t u \<le> 0 \<longrightarrow> lc s u \<le> 0)"

text \<open>A platform whose feed is unreachable, whose clock advances a second per reading,
  whose tokens are numbered and whose collation compares the character codes; the
  model finds no entities.\<close>

definition demoEnv :: env where
  "demoEnv =
     \<lparr>Date_now = (\<lambda>k. 1000 * int k),
      fetch = (\<lambda>k. Rejected),
      randomUUID = (\<lambda>k. ''uuid-'' @ showNat k),
      toLocaleString = (\<lambda>v. toString v),
      StringToNumber = (\<lambda>s. None),
      localeCompare = codeCompare,
      extractEntities = (\<lambda>q h. \<lparr>roads = None, categories = None, origin = None, destination = None\<rparr>),
      answerFromIncidents = (\<lambda>q xs h e. ''answer''),
      summarizeIncidentsForRoute = (\<lambda>xs a b. ''summary''),
      nonTrafficReply = (\<lambda>q h. ''chat'')\<rparr>"

text \<open>The state of a process that has just started.\<close>

definition coldWorld :: world where
  "coldWorld = \<lparr>cache = None, clock_reads = 0, fetch_calls = 0, uuid_calls = 0, llm_calls = []\<rparr>"

definition incidentOn :: "string \<Rightarrow> Clean" where
  "incidentOn r =
     \<lparr>id' = ''1'', road = r, location = r, category = Other, status = Open, closure = None,
      delay = None, startISO = None\<rparr>"

text \<open>Feeds: the scenario of the specification (one jam of 120 seconds on the A2,
  without an identifier); a road entry without \<^verbatim>\<open>road\<close>; a road entry whose road is the
  empty text; an accident and a road work on the A2; four jams with and without a
  start time.\<close>

definition scenarioFeed :: json where
  "scenarioFeed =
     JObj [(''roads'', JArr [JObj [(''road'', JStr ''A2''),
       (''segments'', JArr [JObj [(''jams'', JArr [JObj [(''delay'', JNum 120)]])]])]])]"

definition feedWithoutRoad :: json where
  "feedWithoutRoad =
     JObj [(''roads'', JArr [JObj [
       (''segments'', JArr [JObj [(''jams'', JArr [JObj [(''id'', JNum 1), (''delay'', JNum 120)]])]])]])]"

definition feedWithEmptyRoad :: json where
  "feedWithEmptyRoad =
     JObj [(''roads'', JArr [JObj [(''road'', JStr []),
       (''segments'', JArr [JObj [(''jams'', JArr [JObj [(''id'', JNum 1), (''delay'', JNum 120)]])]])]])]"

definition a2Feed :: json where
  "a2Feed =
     JObj [(''roads'', JArr [JObj [(''road'', JStr ''A2''),
       (''segments'', JArr [JObj [(''start'', JStr ''Utrecht''), (''end'', JStr ''Breda''),
          (''jams'', JArr [JObj [(''id'', JNum 1), (''reason'', JStr ''Ongeval''),
                                 (''delay'', JNum 120)]]),
          (''roadworks'', JArr [JObj [(''id'', JNum 2), (''location'', JStr ''A2 Vianen'')]])]])]])]"

definition timedFeed :: json where
  "timedFeed =
     JObj [(''roads'', JArr [JObj [(''road'', JStr ''A12''),
       (''segments'', JArr [JObj [
          (''jams'', JArr [
             JObj [(''id'', JNum 1), (''start'', JStr ''2024-01-01T10:00:00Z'')],
             JObj [(''id'', JNum 2)],
             JObj [(''id'', JNum 3), (''timestamp'', JStr ''2024-03-01T08:00:00Z'')],
             JObj [(''id'', JNum 4)]])]])]])]"

text \<open>A platform whose feed answers every request with the payload \<open>js\<close> and whose
  model extracts the entities \<open>ents\<close>.\<close>

definition feedEnv :: "json \<Rightarrow> entities \<Rightarrow> env" where
  "feedEnv js ents =
     demoEnv\<lparr>fetch := (\<lambda>k. Response True (Some js)), extractEntities := (\<lambda>q h. ents)\<rparr>"

definition noEntities :: entities where
  "noEntities = \<lparr>roads = None, categories = None, origin = None, destination = None\<rparr>"

text \<open>Two jams at the same local time in two time zones, and a platform that serves
  them and whose collation has the hyphen below the plus sign.\<close>

definition offsetFeed :: json where
  "offsetFeed =
     JObj [(''roads'', JArr [JObj [(''road'', JStr ''A2''),
       (''segments'', JArr [JObj [
          (''jams'', JArr [
             JObj [(''id'', JNum 1), (''start'', JStr ''2024-05-01T10:00:00+02:00'')],
             JObj [(''id'', JNum 2), (''start'', JStr ''2024-05-01T10:00:00-02:00'')]])]])]])]"

definition offsetEnv :: env where
  "offsetEnv = (feedEnv offsetFeed noEntities)\<lparr>localeCompare := hyphenFirstCompare\<rparr>"

text \<open>The two incidents of \<open>a2Feed\<close>, and the state after a first call of
  \<^verbatim>\<open>fetchIncidents\<close> has stored them at the clock's first reading.\<close>

definition a2Accident :: Clean where
  "a2Accident =
     \<lparr>id' = ''1'', road = ''A2'', location = ''A2 Utrecht'' @ arrow @ ''Breda'', category = Accident,
      status = Open, closure = None, delay = Some 2, startISO = None\<rparr>"

definition a2RoadWork :: Clean where
  "a2RoadWork =
     \<lparr>id' = ''2'', road = ''A2'', location = ''A2 Vianen'', category = Construction,
      status = Open, closure = None, delay = None, startISO = None\<rparr>"

definition warmWorld :: world where
  "warmWorld =
     \<lparr>cache = Some (0, [a2Accident, a2RoadWork]), clock_reads = 1, fetch_calls = 1, uuid_calls = 0,
      llm_calls = []\<rparr>"

subsection \<open>The filters of the router, as the specification words them\<close>

text \<open>The road filter keeps the incidents whose road in upper case is in the set of
  the extracted roads in upper case; the category filter keeps the incidents whose
  category is in the set of the extracted categories, the marker \<^verbatim>\<open>all_categories\<close>
  standing for every category but \<^verbatim>\<open>other\<close>. A list that is absent or empty filters
  nothing.\<close>

definition roadWanted :: "entities \<Rightarrow> Clean \<Rightarrow> bool" where
  "roadWanted ents i \<longleftrightarrow>
     (case roads ents of
        None \<Rightarrow> True
      | Some rs \<Rightarrow> rs = [] \<or> toUpperCase (road i) \<in> toUpperCase ` set rs)"

definition categoryWanted :: "entities \<Rightarrow> Clean \<Rightarrow> bool" where
  "categoryWanted ents i \<longleftrightarrow>
     (case categories ents of
        None \<Rightarrow> True
      | Some cs \<Rightarrow>
          cs = [] \<or>
          (if ''all_categories'' \<in> set cs then category i \<noteq> Other
           else categoryName (category i) \<in> set cs))"

subsection \<open>Two predicates on computations\<close>

text \<open>A computation is steady when it never lowers the number of tokens drawn and,
  whenever it draws none, gives the same result from every number. It fails when it
  throws from every number.\<close>

definition steady :: "'a gen \<Rightarrow> bool" where
  "steady m \<longleftrightarrow> (\<forall>n. n \<le> snd (m n)) \<and> (\<forall>n k. snd (m n) = n \<longrightarrow> m k = (fst (m n), k))"

definition fails :: "'a gen \<Rightarrow> bool" where
  "fails m \<longleftrightarrow> (\<forall>n. \<exists>e. fst (m n) = Inl e)"

section \<open>Properties\<close>

subsection \<open>The classifier\<close>

lemma contains_sublist: "contains p s \<longleftrightarrow> sublist p s"
  by (induction s) (simp_all add: sublist_Cons_right)

lemma testAny_sublist: "testAny ps s \<longleftrightarrow> (\<exists>p\<in>set ps. sublist p s)"
  by (simp add: testAny_def list_ex_iff contains_sublist)

text \<open>
  Claim C4. For every raw text and bucket, \<^verbatim>\<open>classify\<close> applies its rules in strict
  order, the first match winning: the bucket of road works gives construction whatever
  the text; otherwise a word of the collision vocabulary in the text gives accident;
  otherwise a word of the weather vocabulary gives weather; otherwise a word of the
  obstacle vocabulary gives obstruction; otherwise the bucket of jams gives
  congestion; otherwise the category is other.
\<close>

theorem classify_first_match:
  fixes raw :: obj and bucket :: bucket
  defines "txt \<equiv> rawText raw"
  defines "collision \<equiv> (\<exists>p\<in>{''ongeval'', ''botsing'', ''crash''}. sublist p txt)"
  defines "weather \<equiv> (\<exists>p\<in>{''mist'', ''gladheid'', ''wateroverlast'', ''storm''}. sublist p txt)"
  defines "obstacle \<equiv> (\<exists>p\<in>{''obstakel'', ''stilgevallen'', ''verlies van lading''}. sublist p txt)"
  shows "(bucket = RoadWorks \<longrightarrow> classify raw bucket = Construction) \<and>
         (bucket \<noteq> RoadWorks \<and> collision \<longrightarrow> classify raw bucket = Accident) \<and>
         (bucket \<noteq> RoadWorks \<and> \<not> collision \<and> weather \<longrightarrow> classify raw bucket = Weather) \<and>
         (bucket \<noteq> RoadWorks \<and> \<not> collision \<and> \<not> weather \<and> obstacle \<longrightarrow>
            classify raw bucket = Obstruction) \<and>
         (bucket = TrafficJams \<and> \<not> collision \<and> \<not> weather \<and> \<not> obstacle \<longrightarrow>
            classify raw bucket = Congestion) \<and>
         (bucket = Radars \<and> \<not> collision \<and> \<not> weather \<and> \<not> obstacle \<longrightarrow>
            classify raw bucket = Other)"
  unfolding collision_def weather_def obstacle_def txt_def rawText_def classify_def Let_def
  by (simp add: testAny_sublist)

theorem classify_first_match_witness:
  "classify [(''reason'', JStr ''Ongeval met Mist'')] TrafficJams = Accident \<and>
   classify [(''reason'', JStr ''Ongeval'')] RoadWorks = Construction \<and>
   classify [(''description'', JStr ''Dichte MIST'')] Radars = Weather \<and>
   classify [(''reason'', JStr ''Stilgevallen vrachtwagen'')] TrafficJams = Obstruction \<and>
   classify [(''reason'', JStr ''Drukte'')] TrafficJams = Congestion \<and>
   classify [(''reason'', JStr ''Drukte'')] Radars = Other"
proof -
  have a: "sublist ''ongeval'' (rawText [(''reason'', JStr ''Ongeval met Mist'')])"
    by code_simp
  have b: "\<not> sublist ''ongeval'' (rawText [(''description'', JStr ''Dichte MIST'')])"
    "\<not> sublist ''botsing'' (rawText [(''description'', JStr ''Dichte MIST'')])"
    "\<not> sublist ''crash'' (rawText [(''description'', JStr ''Dichte MIST'')])"
    "sublist ''mist'' (rawText [(''description'', JStr ''Dichte MIST'')])"
    by code_simp+
  have c: "\<not> sublist ''ongeval'' (rawText [(''reason'', JStr ''Stilgevallen vrachtwagen'')])"
    "\<not> sublist ''botsing'' (rawText [(''reason'', JStr ''Stilgevallen vrachtwagen'')])"
    "\<not> sublist ''crash'' (rawText [(''reason'', JStr ''Stilgevallen vrachtwagen'')])"
    "\<not> sublist ''mist'' (rawText [(''reason'', JStr ''Stilgevallen vrachtwagen'')])"
    "\<not> sublist ''gladheid'' (rawText [(''reason'', JStr ''Stilgevallen vrachtwagen'')])"
    "\<not> sublist ''wateroverlast'' (rawText [(''reason'', JStr ''Stilgevallen vrachtwagen'')])"
    "\<not> sublist ''storm'' (rawText [(''reason'', JStr ''Stilgevallen vrachtwagen'')])"
    "sublist ''stilgevallen'' (rawText [(''reason'', JStr ''Stilgevallen vrachtwagen'')])"
    by code_simp+
  have d: "\<not> sublist ''ongeval'' (rawText [(''reason'', JStr ''Drukte'')])"
    "\<not> sublist ''botsing'' (rawText [(''reason'', JStr ''Drukte'')])"
    "\<not> sublist ''crash'' (rawText [(''reason'', JStr ''Drukte'')])"
    "\<not> sublist ''mist'' (rawText [(''reason'', JStr ''Drukte'')])"
    "\<not> sublist ''gladheid'' (rawText [(''reason'', JStr ''Drukte'')])"
    "\<not> sublist ''wateroverlast'' (rawText [(''reason'', JStr ''Drukte'')])"
    "\<not> sublist ''storm'' (rawText [(''reason'', JStr ''Drukte'')])"
    "\<not> sublist ''obstakel'' (rawText [(''reason'', JStr ''Drukte'')])"
    "\<not> sublist ''stilgevallen'' (rawText [(''reason'', JStr ''Drukte'')])"
    "\<not> sublist ''verlies van lading'' (rawText [(''reason'', JStr ''Drukte'')])"
    by code_simp+
  show ?thesis
    using classify_first_match [where bucket = TrafficJams and raw = "[(''reason'', JStr ''Ongeval met Mist'')]"]
      classify_first_match [where bucket = RoadWorks and raw = "[(''reason'', JStr ''Ongeval'')]"]
      classify_first_match [where bucket = Radars and raw = "[(''description'', JStr ''Dichte MIST'')]"]
      classify_first_match [where bucket = TrafficJams and raw = "[(''reason'', JStr ''Stilgevallen vrachtwagen'')]"]
      classify_first_match [where bucket = TrafficJams and raw = "[(''reason'', JStr ''Drukte'')]"]
      classify_first_match [where bucket = Radars and raw = "[(''reason'', JStr ''Drukte'')]"]
      a b c d
    by simp
qed

subsection \<open>The normalizer: one record\<close>

lemma nullish_coalesce: "nullish (coalesce a b) \<longleftrightarrow> nullish a \<and> nullish b"
  by (cases "(a, b)" rule: coalesce.cases) (auto simp: nullish_def)

lemma coalesce_None: "coalesce a None = None \<longleftrightarrow> nullish a"
  by (cases "(a, None :: jsval)" rule: coalesce.cases) (auto simp: nullish_def)

lemma idOf_Inr: "\<exists>i m. idOf E raw n = (Inr i, m)"
  by (simp add: idOf_def split: option.splits)

lemma parse_Inr:
  assumes "CleanIncident_parse x = Inr c"
  shows "in_road x = Some (JStr (road c))"
    and "in_location x = JStr (location c)"
    and "in_delay x \<noteq> Some None"
    and "delay c = (case in_delay x of None \<Rightarrow> None | Some d \<Rightarrow> d)"
    and "in_startISO x = map_option JStr (startISO c)"
    and "id' c = in_id x"
    and "category c = in_category x"
    and "status c = in_status x"
    and "closure c = in_closure x"
proof -
  from assms obtain r l where rl: "in_road x = Some (JStr r)" "in_location x = JStr l"
    unfolding CleanIncident_parse_def
    by (auto split: option.splits json.splits)
  from assms rl have d: "in_delay x \<noteq> Some None"
    unfolding CleanIncident_parse_def by (auto split: if_splits)
  from assms rl d have
    "(in_startISO x = None \<and> startISO c = None \<or>
      (\<exists>s. in_startISO x = Some (JStr s) \<and> startISO c = Some s)) \<and>
     road c = r \<and> location c = l \<and>
     delay c = (case in_delay x of None \<Rightarrow> None | Some d \<Rightarrow> d) \<and>
     id' c = in_id x \<and> category c = in_category x \<and> status c = in_status x \<and>
     closure c = in_closure x"
    unfolding CleanIncident_parse_def by (auto split: option.splits json.splits)
  with rl d show "in_road x = Some (JStr (road c))"
    and "in_location x = JStr (location c)"
    and "in_delay x \<noteq> Some None"
    and "delay c = (case in_delay x of None \<Rightarrow> None | Some d \<Rightarrow> d)"
    and "in_startISO x = map_option JStr (startISO c)"
    and "id' c = in_id x"
    and "category c = in_category x"
    and "status c = in_status x"
    and "closure c = in_closure x"
    by auto
qed

text \<open>An incident that \<^verbatim>\<open>toClean\<close> returns has passed the schema, with these fields of
  the object literal.\<close>

lemma toClean_parse:
  assumes "toClean E raw bucket rd n = (Inr c, n')"
  shows "\<exists>x. CleanIncident_parse x = Inr c \<and> n' = snd (idOf E raw n) \<and>
       in_road x = rd \<and>
       in_delay x =
         (case get raw ''delay'' of
            None \<Rightarrow> None
          | Some d \<Rightarrow>
              if truthy (Some d)
              then Some (case ToNumber E d of None \<Rightarrow> None | Some x \<Rightarrow> Some (Math_round (x / 60)))
              else None) \<and>
       in_startISO x = coalesce (coalesce (get raw ''start'') (get raw ''timestamp'')) None \<and>
       in_category x = classify raw bucket \<and>
       Inr (in_id x) = fst (idOf E raw n)"
proof -
  obtain i m where i: "idOf E raw n = (Inr i, m)"
    using idOf_Inr by blast
  show ?thesis
    using assms unfolding toClean_def Let_def bind_def lift_def i
    apply (simp only: prod.case sum.case prod.inject)
    apply (erule conjE)
    apply (rule exI, rule conjI, assumption)
    apply simp
    done
qed

lemma toClean_delay_field:
  assumes "toClean E raw bucket rd n = (Inr c, n')"
  shows "delay c =
           (case get raw ''delay'' of
              None \<Rightarrow> None
            | Some d \<Rightarrow>
                if truthy (Some d) then map_option (\<lambda>x. Math_round (x / 60)) (ToNumber E d)
                else None)"
proof -
  from toClean_parse [OF assms] obtain x where x: "CleanIncident_parse x = Inr c"
    "in_delay x =
       (case get raw ''delay'' of
          None \<Rightarrow> None
        | Some d \<Rightarrow>
            if truthy (Some d)
            then Some (case ToNumber E d of None \<Rightarrow> None | Some x \<Rightarrow> Some (Math_round (x / 60)))
            else None)"
    by blast
  from parse_Inr(3,4) [OF x(1)] x(2) show ?thesis
    by (auto split: option.splits if_splits)
qed

lemma Math_round_div: "Math_round (of_int d / 60) = (d + 30) div 60"
proof -
  have "Math_round (of_int d / 60) = \<lfloor>(of_int (d + 30) :: rat) / of_int 60\<rfloor>"
    unfolding Math_round_def by (simp add: field_simps)
  also have "\<dots> = (d + 30) div 60"
    by (simp only: floor_divide_of_int_eq)
  finally show ?thesis .
qed

lemma Math_round_zero_iff: "Math_round (of_int d / 60) = 0 \<longleftrightarrow> - 30 \<le> d \<and> d < 30"
  unfolding Math_round_div by auto

text \<open>
  Claim C2, as the code has it. For every raw item that is emitted: a delay of \<open>d\<close>
  seconds with \<open>d \<ge> 30\<close> is emitted as \<open>round (d / 60)\<close> minutes, which is not 0;
  a delay that is 0, \<^verbatim>\<open>null\<close> or absent is omitted; and among the numeric delays the
  value 0 is emitted exactly for those that are not 0 and round to 0, which are the
  delays of 1 to 29 seconds and the negative ones down to -30.
\<close>

theorem toClean_delay:
  assumes "toClean E raw bucket rd n = (Inr c, n')"
  shows "(\<forall>d. get raw ''delay'' = Some (JNum d) \<and> 30 \<le> d \<longrightarrow>
            delay c = Some (round (rat_of_int d / 60)) \<and> delay c \<noteq> Some 0) \<and>
         (get raw ''delay'' = None \<or> get raw ''delay'' = Some JNull \<or>
          get raw ''delay'' = Some (JNum 0) \<longrightarrow> delay c = None) \<and>
         (\<forall>d. get raw ''delay'' = Some (JNum d) \<longrightarrow>
            (delay c = Some 0 \<longleftrightarrow> d \<noteq> 0 \<and> - 30 \<le> d \<and> d < 30))"
proof -
  have r: "round (rat_of_int d / 60) = Math_round (of_int d / 60)" for d
    by (simp add: round_def Math_round_def)
  show ?thesis
    using toClean_delay_field [OF assms]
    by (auto simp: r Math_round_zero_iff)
qed

theorem toClean_delay_witness:
  "toClean demoEnv [(''delay'', JNum 120), (''id'', JNum 7), (''location'', JStr ''A2 Utrecht'')]
       TrafficJams (Some (JStr ''A2'')) 0 =
     (Inr \<lparr>id' = ''7'', road = ''A2'', location = ''A2 Utrecht'', category = Congestion,
           status = Open, closure = None, delay = Some 2, startISO = None\<rparr>, 0) \<and>
   Some (2 :: int) = Some (round (rat_of_int 120 / 60)) \<and>
   toClean demoEnv [(''delay'', JNum 0), (''id'', JNum 7), (''location'', JStr ''A2 Utrecht'')]
       TrafficJams (Some (JStr ''A2'')) 0 =
     (Inr \<lparr>id' = ''7'', road = ''A2'', location = ''A2 Utrecht'', category = Congestion,
           status = Open, closure = None, delay = None, startISO = None\<rparr>, 0) \<and>
   toClean demoEnv [(''delay'', JNum 29), (''id'', JNum 7), (''location'', JStr ''A2 Utrecht'')]
       TrafficJams (Some (JStr ''A2'')) 0 =
     (Inr \<lparr>id' = ''7'', road = ''A2'', location = ''A2 Utrecht'', category = Congestion,
           status = Open, closure = None, delay = Some 0, startISO = None\<rparr>, 0)"
proof -
  have h: "toClean demoEnv [(''delay'', JNum 120), (''id'', JNum 7), (''location'', JStr ''A2 Utrecht'')]
       TrafficJams (Some (JStr ''A2'')) 0 =
     (Inr \<lparr>id' = ''7'', road = ''A2'', location = ''A2 Utrecht'', category = Congestion,
           status = Open, closure = None, delay = Some 2, startISO = None\<rparr>, 0)"
    by code_simp
  have g: "get [(''delay'', JNum 120), (''id'', JNum 7), (''location'', JStr ''A2 Utrecht'')] ''delay'' =
      Some (JNum 120)"
    by (simp add: get_def)
  from toClean_delay [OF h] g have r: "Some (2 :: int) = Some (round (rat_of_int 120 / 60))"
    by (simp del: round_def)
  have h0: "toClean demoEnv [(''delay'', JNum 0), (''id'', JNum 7), (''location'', JStr ''A2 Utrecht'')]
       TrafficJams (Some (JStr ''A2'')) 0 =
     (Inr (projr (fst (toClean demoEnv
         [(''delay'', JNum 0), (''id'', JNum 7), (''location'', JStr ''A2 Utrecht'')]
         TrafficJams (Some (JStr ''A2'')) 0))), 0)"
    by code_simp
  have g0: "get [(''delay'', JNum 0), (''id'', JNum 7), (''location'', JStr ''A2 Utrecht'')] ''delay'' =
      Some (JNum 0)"
    by (simp add: get_def)
  from toClean_delay [OF h0] g0 have d0: "delay (projr (fst (toClean demoEnv
         [(''delay'', JNum 0), (''id'', JNum 7), (''location'', JStr ''A2 Utrecht'')]
         TrafficJams (Some (JStr ''A2'')) 0))) = None"
    by blast
  have f0: "toClean demoEnv [(''delay'', JNum 0), (''id'', JNum 7), (''location'', JStr ''A2 Utrecht'')]
       TrafficJams (Some (JStr ''A2'')) 0 =
     (Inr \<lparr>id' = ''7'', road = ''A2'', location = ''A2 Utrecht'', category = Congestion,
           status = Open, closure = None, delay = None, startISO = None\<rparr>, 0)"
    by code_simp
  have h29: "toClean demoEnv [(''delay'', JNum 29), (''id'', JNum 7), (''location'', JStr ''A2 Utrecht'')]
       TrafficJams (Some (JStr ''A2'')) 0 =
     (Inr \<lparr>id' = ''7'', road = ''A2'', location = ''A2 Utrecht'', category = Congestion,
           status = Open, closure = None, delay = Some 0, startISO = None\<rparr>, 0)"
    by code_simp
  have g29: "get [(''delay'', JNum 29), (''id'', JNum 7), (''location'', JStr ''A2 Utrecht'')] ''delay'' =
      Some (JNum 29)"
    by (simp add: get_def)
  from toClean_delay [OF h29] g29 have "(29 :: int) \<noteq> 0 \<and> - 30 \<le> (29 :: int) \<and> (29 :: int) < 30"
    by simp
  with h r f0 h29 d0 show ?thesis by blast
qed

text \<open>The claim as it was stated fails: a jam with a delay of 10 seconds is emitted with
  the delay 0.\<close>

theorem delay_zero_counterexample:
  "toClean demoEnv [(''delay'', JNum 10), (''id'', JNum 7), (''location'', JStr ''A2 Utrecht'')]
       TrafficJams (Some (JStr ''A2'')) 0 =
   (Inr \<lparr>id' = ''7'', road = ''A2'', location = ''A2 Utrecht'', category = Congestion,
         status = Open, closure = None, delay = Some 0, startISO = None\<rparr>, 0)"
  by code_simp

subsection \<open>The route heuristic\<close>

text \<open>
  Claim C9. For every incident, origin and destination, \<^verbatim>\<open>isIncidentOnRoute\<close> lowers
  and trims both places, joins them with a hyphen and answers true exactly when that
  key is one of the two pairs of the table and the incident's road in upper case is
  in the pair's list of highways. Every other pair, the reverse of a pair of the
  table included, gives false.
\<close>

theorem isIncidentOnRoute_table:
  "isIncidentOnRoute incident a b \<longleftrightarrow>
     (trim (toLowerCase a) @ ''-'' @ trim (toLowerCase b) = ''vlissingen-amsterdam'' \<and>
      toUpperCase (road incident) \<in> {''A58'', ''A4'', ''A2'', ''A10'', ''N57'', ''N59''}) \<or>
     (trim (toLowerCase a) @ ''-'' @ trim (toLowerCase b) = ''amsterdam-rotterdam'' \<and>
      toUpperCase (road incident) \<in> {''A4'', ''A2'', ''A13''})"
  unfolding isIncidentOnRoute_def routeMap_def Let_def
  by (auto split: option.splits if_splits)

theorem isIncidentOnRoute_table_witness:
  "isIncidentOnRoute (incidentOn ''a4'') '' Amsterdam'' ''Rotterdam '' \<and>
   \<not> isIncidentOnRoute (incidentOn ''N1'') ''Amsterdam'' ''Rotterdam'' \<and>
   \<not> isIncidentOnRoute (incidentOn ''A4'') ''Rotterdam'' ''Amsterdam''"
proof -
  have k: "trim (toLowerCase '' Amsterdam'') @ ''-'' @ trim (toLowerCase ''Rotterdam '') =
             ''amsterdam-rotterdam''"
    "trim (toLowerCase ''Amsterdam'') @ ''-'' @ trim (toLowerCase ''Rotterdam'') =
             ''amsterdam-rotterdam''"
    "trim (toLowerCase ''Rotterdam'') @ ''-'' @ trim (toLowerCase ''Amsterdam'') =
             ''rotterdam-amsterdam''"
    by code_simp+
  have r: "toUpperCase (road (incidentOn ''a4'')) = ''A4''"
    "toUpperCase (road (incidentOn ''N1'')) = ''N1''"
    by code_simp+
  show ?thesis
    using isIncidentOnRoute_table [of "incidentOn ''a4''" "'' Amsterdam''" "''Rotterdam ''"]
      isIncidentOnRoute_table [of "incidentOn ''N1''" "''Amsterdam''" "''Rotterdam''"]
      isIncidentOnRoute_table [of "incidentOn ''A4''" "''Rotterdam''" "''Amsterdam''"]
    unfolding k r by simp
qed

subsection \<open>Computations that draw tokens\<close>

lemma bind_lift_Inr [simp]: "bind (lift (Inr v)) f = f v"
  by (rule ext) (simp add: bind_def lift_def)

lemma bind_lift_Inl [simp]: "bind (lift (Inl e)) f = lift (Inl e)"
  by (rule ext) (simp add: bind_def lift_def)

lemma bind_ret [simp]: "bind (ret v) f = f v"
  by (rule ext) (simp add: bind_def ret_def)

lemma steadyD1: "steady m \<Longrightarrow> n \<le> snd (m n)"
  unfolding steady_def by blast

lemma steadyD2: "steady m \<Longrightarrow> snd (m n) = n \<Longrightarrow> m k = (fst (m n), k)"
  unfolding steady_def by blast

lemma steady_ret: "steady (ret x)"
  by (simp add: steady_def ret_def)

lemma steady_lift: "steady (lift r)"
  by (simp add: steady_def lift_def)

lemma steady_bind:
  assumes m: "steady m" and f: "\<And>x. steady (f x)"
  shows "steady (bind m f)"
  unfolding steady_def
proof (intro conjI allI impI)
  fix n
  show "n \<le> snd (bind m f n)"
  proof (cases "m n")
    case (Pair r n1)
    with steadyD1[OF m, of n] have le: "n \<le> n1" by simp
    show ?thesis
    proof (cases r)
      case (Inl e)
      with Pair le show ?thesis by (simp add: bind_def)
    next
      case (Inr x)
      from steadyD1[OF f, of n1 x] have "n1 \<le> snd (f x n1)" .
      with Pair Inr le show ?thesis by (simp add: bind_def)
    qed
  qed
next
  fix n k
  assume s: "snd (bind m f n) = n"
  show "bind m f k = (fst (bind m f n), k)"
  proof (cases "m n")
    case (Pair r n1)
    with steadyD1[OF m, of n] have le: "n \<le> n1" by simp
    show ?thesis
    proof (cases r)
      case (Inl e)
      with Pair s have "n1 = n" by (simp add: bind_def)
      with Pair Inl steadyD2[OF m, of n k] have "m k = (Inl e, k)" by simp
      with Pair Inl show ?thesis by (simp add: bind_def)
    next
      case (Inr x)
      from steadyD1[OF f, of n1 x] have fx: "n1 \<le> snd (f x n1)" .
      from Pair Inr s have s': "snd (f x n1) = n" by (simp add: bind_def)
      with fx le have eq: "n1 = n" by simp
      with Pair Inr steadyD2[OF m, of n k] have mk: "m k = (Inr x, k)" by simp
      from steadyD2[OF f, of x n k] s' eq have "f x k = (fst (f x n), k)" by simp
      with Pair Inr mk eq show ?thesis by (simp add: bind_def)
    qed
  qed
qed

lemma steady_forEach:
  assumes "\<And>x. steady (f x)"
  shows "steady (forEach f xs)"
  by (induction xs) (simp_all add: steady_ret steady_bind assms)

lemma steady_idOf: "steady (idOf E raw)"
  by (auto simp: steady_def idOf_def split: option.splits)

lemma steady_toClean: "steady (toClean E raw bucket rd)"
  unfolding toClean_def Let_def
  by (intro steady_bind steady_idOf steady_lift)

lemma steady_pushItem: "steady (pushItem E bucket rd a b item)"
  unfolding pushItem_def
  by (intro steady_bind steady_toClean steady_lift steady_ret)

lemma steady_itemsOf: "steady (itemsOf E bucket rd a b seg k)"
  unfolding itemsOf_def
  by (intro steady_bind steady_forEach steady_pushItem steady_lift)

lemma steady_segmentItems: "steady (segmentItems E rd seg)"
  unfolding segmentItems_def Let_def
  by (intro steady_bind steady_itemsOf steady_lift steady_ret)

lemma steady_roadItems: "steady (roadItems E entry)"
  unfolding roadItems_def
  by (intro steady_bind steady_forEach steady_segmentItems steady_lift)

lemma steady_flatten: "steady (flatten E js)"
  unfolding flatten_def
  by (intro steady_bind steady_forEach steady_roadItems steady_lift)

lemma steady_normalize: "steady (normalizeFeed E js)"
  unfolding normalizeFeed_def
  by (intro steady_bind steady_flatten steady_ret)

subsection \<open>The order of the incidents\<close>

lemma set_insertBy: "set (insertBy cmp x ys) = insert x (set ys)"
  by (induction ys) auto

lemma mset_insertBy: "mset (insertBy cmp x ys) = add_mset x (mset ys)"
  by (induction ys) auto

lemma mset_sortBy: "mset (sortBy cmp xs) = mset xs"
  by (induction xs) (simp_all add: sortBy_def mset_insertBy)

lemma sorted_insertBy:
  assumes tot: "\<And>a b. cmp a b \<le> 0 \<or> cmp b a \<le> 0"
    and tr: "\<And>a b c. cmp a b \<le> 0 \<Longrightarrow> cmp b c \<le> 0 \<Longrightarrow> cmp a c \<le> 0"
    and "sorted_wrt (\<lambda>a b. cmp a b \<le> 0) ys"
  shows "sorted_wrt (\<lambda>a b. cmp a b \<le> 0) (insertBy cmp x ys)"
  using assms(3)
proof (induction ys)
  case Nil
  then show ?case by simp
next
  case (Cons y ys)
  show ?case
  proof (cases "cmp x y \<le> 0")
    case True
    have "cmp x z \<le> 0" if "z \<in> set ys" for z
    proof -
      from Cons.prems that have "cmp y z \<le> 0" by simp
      with True show ?thesis by (rule tr)
    qed
    with Cons.prems True show ?thesis by simp
  next
    case False
    with tot [of x y] have "cmp y x \<le> 0" by simp
    with Cons False show ?thesis by (auto simp: set_insertBy)
  qed
qed

lemma sorted_sortBy:
  assumes "\<And>a b. cmp a b \<le> 0 \<or> cmp b a \<le> 0"
    and "\<And>a b c. cmp a b \<le> 0 \<Longrightarrow> cmp b c \<le> 0 \<Longrightarrow> cmp a c \<le> 0"
  shows "sorted_wrt (\<lambda>a b. cmp a b \<le> 0) (sortBy cmp xs)"
  by (induction xs) (simp_all add: sortBy_def sorted_insertBy [OF assms])

lemma consistent_total: "consistent lc \<Longrightarrow> lc s t \<le> 0 \<or> lc t s \<le> 0"
proof -
  assume c: "consistent lc"
  then have s: "sgn (lc t s) = - sgn (lc s t)" unfolding consistent_def by blast
  show ?thesis
  proof (cases "lc s t \<le> 0")
    case True then show ?thesis by simp
  next
    case False
    then have "sgn (lc s t) = 1" by simp
    with s have "sgn (lc t s) = - 1" by simp
    then have "lc t s < 0" by (simp add: sgn_if split: if_splits)
    then show ?thesis by simp
  qed
qed

lemma consistent_trans: "consistent lc \<Longrightarrow> lc s t \<le> 0 \<Longrightarrow> lc t u \<le> 0 \<Longrightarrow> lc s u \<le> 0"
  unfolding consistent_def by blast

lemma sorted_byStartDesc:
  assumes "consistent (localeCompare E)"
  shows "sorted_wrt (\<lambda>a b. localeCompare E (startKey b) (startKey a) \<le> 0) (sortBy (byStartDesc E) ys)"
proof -
  have "sorted_wrt (\<lambda>a b. byStartDesc E a b \<le> 0) (sortBy (byStartDesc E) ys)"
  proof (rule sorted_sortBy)
    show "byStartDesc E a b \<le> 0 \<or> byStartDesc E b a \<le> 0" for a b
      unfolding byStartDesc_def by (rule consistent_total [OF assms])
    show "byStartDesc E a c \<le> 0" if "byStartDesc E a b \<le> 0" "byStartDesc E b c \<le> 0" for a b c
      using that unfolding byStartDesc_def
      by (meson assms consistent_trans)
  qed
  then show ?thesis by (simp add: byStartDesc_def)
qed

lemma consistent_codeCompare: "consistent codeCompare"
  unfolding consistent_def codeCompare_def by auto

lemma consistent_hyphenFirstCompare: "consistent hyphenFirstCompare"
  unfolding consistent_def hyphenFirstCompare_def by auto

lemma codeCompare_le: "codeCompare s t \<le> 0 \<longleftrightarrow> s \<le> t"
  unfolding codeCompare_def by auto

lemma normalize_Inr:
  assumes "normalizeFeed E js n = (Inr xs, n')"
  shows "\<exists>ys. flatten E js n = (Inr ys, n') \<and> xs = sortBy (byStartDesc E) ys"
  using assms unfolding normalizeFeed_def bind_def ret_def
  by (auto split: prod.splits sum.splits)

lemma fetchIncidents_Inr:
  assumes "fetchIncidents E w = (Inr xs, w')"
  shows "(\<exists>ts. cache w = Some (ts, xs) \<and> cache w' = cache w \<and> fetch_calls w' = fetch_calls w) \<or>
         (fetch_calls w' = Suc (fetch_calls w) \<and>
          (\<exists>js n' t. fetch E (fetch_calls w) = Response True (Some js) \<and>
             normalizeFeed E js (uuid_calls w) = (Inr xs, n') \<and> cache w' = Some (t, xs)))"
  using assms unfolding fetchIncidents_def Let_def
  by (auto split: option.splits prod.splits response.splits sum.splits if_splits)

text \<open>
  Claim C7, as the code has it. The list that \<^verbatim>\<open>fetchIncidents\<close> returns, and keeps in
  the cache, is sorted in descending order of \<^verbatim>\<open>startISO\<close> in the collation of
  \<^verbatim>\<open>localeCompare\<close>, a record without a timestamp comparing as the empty text; after
  a request to the feed it holds the flattened records of the payload, each as often
  as the flattening emitted it. The list is in descending lexicographic order
  whenever the collation orders the timestamps of the list as their character codes
  do, and then no record with a timestamp follows a record without one.
\<close>

theorem fetchIncidents_sorted:
  assumes "consistent (localeCompare E)"
    and "\<forall>ts data. cache w = Some (ts, data) \<longrightarrow>
           sorted_wrt (\<lambda>a b. localeCompare E (startKey b) (startKey a) \<le> 0) data"
    and "fetchIncidents E w = (Inr xs, w')"
  shows "sorted_wrt (\<lambda>a b. localeCompare E (startKey b) (startKey a) \<le> 0) xs \<and>
         (\<exists>t. cache w' = Some (t, xs)) \<and>
         (fetch_calls w' \<noteq> fetch_calls w \<longrightarrow>
            (\<exists>js ys n'. fetch E (fetch_calls w) = Response True (Some js) \<and>
               flatten E js (uuid_calls w) = (Inr ys, n') \<and> mset xs = mset ys)) \<and>
         ((\<forall>a\<in>set xs. \<forall>b\<in>set xs.
              (localeCompare E (startKey a) (startKey b) \<le> 0) = (startKey a \<le> startKey b)) \<longrightarrow>
            sorted_wrt (\<lambda>a b. startKey a \<ge> startKey b) xs \<and>
            (\<forall>i j. i < j \<and> j < length xs \<and> startISO (xs ! i) = None \<longrightarrow> startKey (xs ! j) = []))"
proof -
  let ?S = "\<lambda>a b. localeCompare E (startKey b) (startKey a) \<le> 0"
  from fetchIncidents_Inr [OF assms(3)] consider
    (hit) ts where "cache w = Some (ts, xs)" "cache w' = cache w" "fetch_calls w' = fetch_calls w"
  | (miss) js n' t where "fetch E (fetch_calls w) = Response True (Some js)"
      "normalizeFeed E js (uuid_calls w) = (Inr xs, n')" "cache w' = Some (t, xs)"
    by blast
  then have main: "sorted_wrt ?S xs \<and> (\<exists>t. cache w' = Some (t, xs)) \<and>
         (fetch_calls w' \<noteq> fetch_calls w \<longrightarrow>
            (\<exists>js ys n'. fetch E (fetch_calls w) = Response True (Some js) \<and>
               flatten E js (uuid_calls w) = (Inr ys, n') \<and> mset xs = mset ys))"
  proof cases
    case hit
    with assms(2) show ?thesis by auto
  next
    case miss
    from normalize_Inr [OF miss(2)] obtain ys where
      ys: "flatten E js (uuid_calls w) = (Inr ys, n')" "xs = sortBy (byStartDesc E) ys" by blast
    have "sorted_wrt ?S xs" unfolding ys(2) by (rule sorted_byStartDesc [OF assms(1)])
    moreover have "mset xs = mset ys" unfolding ys(2) by (rule mset_sortBy)
    ultimately show ?thesis using miss ys(1) by blast
  qed
  have lex: "sorted_wrt (\<lambda>a b. startKey a \<ge> startKey b) xs \<and>
            (\<forall>i j. i < j \<and> j < length xs \<and> startISO (xs ! i) = None \<longrightarrow> startKey (xs ! j) = [])"
    if agree: "\<forall>a\<in>set xs. \<forall>b\<in>set xs.
              (localeCompare E (startKey a) (startKey b) \<le> 0) = (startKey a \<le> startKey b)"
  proof -
    from main have "sorted_wrt ?S xs" by blast
    then have s: "sorted_wrt (\<lambda>a b. startKey b \<le> startKey a) xs"
      by (rule sorted_wrt_mono_rel [rotated]) (use agree in blast)
    have "startKey (xs ! j) = []" if "i < j" "j < length xs" "startISO (xs ! i) = None" for i j
    proof -
      from s that have "startKey (xs ! j) \<le> startKey (xs ! i)"
        by (simp add: sorted_wrt_iff_nth_less)
      with that(3) show ?thesis by (simp add: startKey_def)
    qed
    with s show ?thesis by blast
  qed
  from main lex show ?thesis by blast
qed

theorem fetchIncidents_sorted_witness:
  "map id' (projr (fst (fetchIncidents offsetEnv coldWorld))) = [''1'', ''2''] \<and>
   sorted_wrt (\<lambda>a b. hyphenFirstCompare (startKey b) (startKey a) \<le> 0)
     (projr (fst (fetchIncidents offsetEnv coldWorld))) \<and>
   map id' (projr (fst (fetchIncidents (feedEnv timedFeed noEntities) coldWorld))) =
     [''3'', ''1'', ''2'', ''4''] \<and>
   map startISO (projr (fst (fetchIncidents (feedEnv timedFeed noEntities) coldWorld))) =
     [Some ''2024-03-01T08:00:00Z'', Some ''2024-01-01T10:00:00Z'', None, None] \<and>
   sorted_wrt (\<lambda>a b. startKey a \<ge> startKey b)
     (projr (fst (fetchIncidents (feedEnv timedFeed noEntities) coldWorld))) \<and>
   startKey (projr (fst (fetchIncidents (feedEnv timedFeed noEntities) coldWorld)) ! 3) = [] \<and>
   fetch_calls (snd (fetchIncidents (feedEnv timedFeed noEntities)
     (snd (fetchIncidents (feedEnv timedFeed noEntities) coldWorld)))) = 1 \<and>
   sorted_wrt (\<lambda>a b. codeCompare (startKey b) (startKey a) \<le> 0)
     (projr (fst (fetchIncidents (feedEnv timedFeed noEntities)
        (snd (fetchIncidents (feedEnv timedFeed noEntities) coldWorld)))))"
proof -
  let ?xs = "projr (fst (fetchIncidents offsetEnv coldWorld))"
  let ?w = "snd (fetchIncidents (feedEnv timedFeed noEntities) coldWorld)"
  let ?zs = "projr (fst (fetchIncidents (feedEnv timedFeed noEntities)
        (snd (fetchIncidents (feedEnv timedFeed noEntities) coldWorld))))"
  let ?ys = "projr (fst (fetchIncidents (feedEnv timedFeed noEntities) coldWorld))"
  have c: "\<forall>ts data. cache coldWorld = Some (ts, data) \<longrightarrow> P data" for P :: "Clean list \<Rightarrow> bool"
    by (simp add: coldWorld_def)
  have l1: "localeCompare offsetEnv = hyphenFirstCompare"
    by (simp add: offsetEnv_def)
  have k1: "consistent (localeCompare offsetEnv)"
    unfolding l1 by (rule consistent_hyphenFirstCompare)
  have h1: "fetchIncidents offsetEnv coldWorld = (Inr ?xs, snd (fetchIncidents offsetEnv coldWorld))"
    by code_simp
  have m1: "map id' ?xs = [''1'', ''2'']"
    by code_simp
  from fetchIncidents_sorted [OF k1 c h1]
  have s1: "sorted_wrt (\<lambda>a b. hyphenFirstCompare (startKey b) (startKey a) \<le> 0) ?xs"
    unfolding l1 by blast
  have l2: "localeCompare (feedEnv timedFeed noEntities) = codeCompare"
    by (simp add: feedEnv_def demoEnv_def)
  have k2: "consistent (localeCompare (feedEnv timedFeed noEntities))"
    unfolding l2 by (rule consistent_codeCompare)
  have h2: "fetchIncidents (feedEnv timedFeed noEntities) coldWorld =
      (Inr ?ys, snd (fetchIncidents (feedEnv timedFeed noEntities) coldWorld))"
    by code_simp
  have m2: "map id' ?ys = [''3'', ''1'', ''2'', ''4'']"
    "map startISO ?ys = [Some ''2024-03-01T08:00:00Z'', Some ''2024-01-01T10:00:00Z'', None, None]"
    by code_simp+
  have a2: "\<forall>a\<in>set ?ys. \<forall>b\<in>set ?ys.
      (localeCompare (feedEnv timedFeed noEntities) (startKey a) (startKey b) \<le> 0) =
      (startKey a \<le> startKey b)"
    unfolding l2 by (simp add: codeCompare_le)
  have i2: "(2 :: nat) < 3 \<and> 3 < length ?ys \<and> startISO (?ys ! 2) = None"
    by code_simp
  from fetchIncidents_sorted [OF k2 c h2] a2
  have s2: "sorted_wrt (\<lambda>a b. startKey a \<ge> startKey b) ?ys \<and>
      (\<forall>i j. i < j \<and> j < length ?ys \<and> startISO (?ys ! i) = None \<longrightarrow> startKey (?ys ! j) = [])"
    by blast
  with i2 have e2: "startKey (?ys ! 3) = []" by blast
  from fetchIncidents_sorted [OF k2 c h2]
  have inv: "\<forall>ts data. cache ?w = Some (ts, data) \<longrightarrow>
      sorted_wrt (\<lambda>a b. localeCompare (feedEnv timedFeed noEntities) (startKey b) (startKey a) \<le> 0)
        data"
    by auto
  have h3: "fetchIncidents (feedEnv timedFeed noEntities) ?w =
      (Inr ?zs, snd (fetchIncidents (feedEnv timedFeed noEntities) ?w))"
    by code_simp
  have f3: "fetch_calls (snd (fetchIncidents (feedEnv timedFeed noEntities) ?w)) = 1"
    by code_simp
  from fetchIncidents_sorted [OF k2 inv h3]
  have s3: "sorted_wrt (\<lambda>a b. codeCompare (startKey b) (startKey a) \<le> 0) ?zs"
    unfolding l2 by blast
  from m1 s1 m2 s2 e2 f3 s3 show ?thesis by blast
qed

text \<open>The claim as it was stated fails: two jams whose timestamps differ in the sign of
  the time zone come back in the order of the collation, the plus sign first, which is
  the ascending order of the character codes.\<close>

theorem collation_order_counterexample:
  "fst (fetchIncidents offsetEnv coldWorld) =
     Inr [\<lparr>id' = ''1'', road = ''A2'', location = ''A2 '' @ arrow, category = Congestion,
           status = Open, closure = None, delay = None,
           startISO = Some ''2024-05-01T10:00:00+02:00''\<rparr>,
          \<lparr>id' = ''2'', road = ''A2'', location = ''A2 '' @ arrow, category = Congestion,
           status = Open, closure = None, delay = None,
           startISO = Some ''2024-05-01T10:00:00-02:00''\<rparr>] \<and>
   ''2024-05-01T10:00:00+02:00'' < ''2024-05-01T10:00:00-02:00'' \<and>
   \<not> sorted_wrt (\<lambda>a b. startKey a \<ge> startKey b)
     (projr (fst (fetchIncidents offsetEnv coldWorld)))"
  by code_simp

subsection \<open>The normalizer: identifiers\<close>

text \<open>
  Claim C8, as the code has it. Normalizing and flattening the same payload twice
  gives the same ordered output whenever the first run draws no fresh identifier,
  and a record that carries an upstream \<^verbatim>\<open>id\<close> or \<^verbatim>\<open>msgNr\<close> draws none. A record with
  neither draws one token of \<^verbatim>\<open>crypto.randomUUID()\<close>, which becomes its identifier and
  differs from run to run.
\<close>

theorem normalize_repeatable:
  "(snd (normalizeFeed E js n) = n \<longrightarrow> normalizeFeed E js k = (fst (normalizeFeed E js n), k)) \<and>
   (\<not> nullish (get raw ''id'') \<or> \<not> nullish (get raw ''msgNr'') \<longrightarrow>
      snd (toClean E raw bucket rd m) = m) \<and>
   (nullish (get raw ''id'') \<and> nullish (get raw ''msgNr'') \<longrightarrow>
      snd (toClean E raw bucket rd m) = Suc m \<and>
      (\<forall>c. fst (toClean E raw bucket rd m) = Inr c \<longrightarrow> id' c = randomUUID E m))"
proof (intro conjI)
  show "snd (normalizeFeed E js n) = n \<longrightarrow> normalizeFeed E js k = (fst (normalizeFeed E js n), k)"
    using steadyD2 [OF steady_normalize, of E js n k] by blast
next
  show "nullish (get raw ''id'') \<and> nullish (get raw ''msgNr'') \<longrightarrow>
      snd (toClean E raw bucket rd m) = Suc m \<and>
      (\<forall>c. fst (toClean E raw bucket rd m) = Inr c \<longrightarrow> id' c = randomUUID E m)"
  proof (intro impI conjI allI)
    assume "nullish (get raw ''id'') \<and> nullish (get raw ''msgNr'')"
    then have v: "coalesce (coalesce (get raw ''id'') (get raw ''msgNr'')) None = None"
      by (simp add: coalesce_None nullish_coalesce)
    then have i: "idOf E raw m = (Inr (randomUUID E m), Suc m)"
      by (simp add: idOf_def)
    show "snd (toClean E raw bucket rd m) = Suc m"
      unfolding toClean_def Let_def bind_def lift_def i by simp
    fix c
    assume "fst (toClean E raw bucket rd m) = Inr c"
    then have "toClean E raw bucket rd m = (Inr c, snd (toClean E raw bucket rd m))"
      by (simp add: prod_eq_iff)
    from toClean_parse [OF this] obtain x where
      "CleanIncident_parse x = Inr c" "Inr (in_id x) = fst (idOf E raw m)"
      by blast
    with parse_Inr(6) [of x c] i show "id' c = randomUUID E m" by simp
  qed
next
  show "\<not> nullish (get raw ''id'') \<or> \<not> nullish (get raw ''msgNr'') \<longrightarrow>
      snd (toClean E raw bucket rd m) = m"
  proof
    assume "\<not> nullish (get raw ''id'') \<or> \<not> nullish (get raw ''msgNr'')"
    then have "coalesce (coalesce (get raw ''id'') (get raw ''msgNr'')) None \<noteq> None"
      by (simp add: coalesce_None nullish_coalesce)
    then obtain v where v: "coalesce (coalesce (get raw ''id'') (get raw ''msgNr'')) None = Some v"
      by blast
    show "snd (toClean E raw bucket rd m) = m"
      unfolding toClean_def Let_def bind_def lift_def idOf_def v by simp
  qed
qed

theorem normalize_repeatable_witness:
  "snd (normalizeFeed demoEnv a2Feed 0) = 0 \<and>
   normalizeFeed demoEnv a2Feed 5 = (fst (normalizeFeed demoEnv a2Feed 0), 5) \<and>
   \<not> nullish (get [(''msgNr'', JNum 4)] ''msgNr'') \<and>
   snd (toClean demoEnv [(''msgNr'', JNum 4)] Radars (Some (JStr ''A2'')) 3) = 3 \<and>
   snd (toClean demoEnv [(''delay'', JNum 120)] TrafficJams (Some (JStr ''A2'')) 7) = 8"
proof -
  have u: "nullish (get [(''delay'', JNum 120)] ''id'') \<and> nullish (get [(''delay'', JNum 120)] ''msgNr'')"
    by (simp add: get_def nullish_def)
  from normalize_repeatable
    [where E = demoEnv and raw = "[(''delay'', JNum 120)]" and bucket = TrafficJams
       and rd = "Some (JStr ''A2'')" and m = 7]
    u
  have f: "snd (toClean demoEnv [(''delay'', JNum 120)] TrafficJams (Some (JStr ''A2'')) 7) = 8"
    by simp
  have h: "snd (normalizeFeed demoEnv a2Feed 0) = 0"
    by code_simp
  have g: "\<not> nullish (get [(''msgNr'', JNum 4)] ''msgNr'')"
    by (simp add: get_def nullish_def)
  from normalize_repeatable
    [where E = demoEnv and js = a2Feed and n = 0 and k = 5 and raw = "[(''msgNr'', JNum 4)]"
       and bucket = Radars and rd = "Some (JStr ''A2'')" and m = 3]
    h g f show ?thesis by blast
qed

text \<open>The claim as it was stated fails on the scenario of the specification itself,
  whose jam has no identifier: two runs, the second after the first, give different
  outputs.\<close>

theorem fresh_ids_counterexample:
  "normalizeFeed demoEnv scenarioFeed 0 =
     (Inr [\<lparr>id' = ''uuid-0'', road = ''A2'', location = ''A2 '' @ arrow, category = Congestion,
            status = Open, closure = None, delay = Some 2, startISO = None\<rparr>], 1) \<and>
   normalizeFeed demoEnv scenarioFeed 1 =
     (Inr [\<lparr>id' = ''uuid-1'', road = ''A2'', location = ''A2 '' @ arrow, category = Congestion,
            status = Open, closure = None, delay = Some 2, startISO = None\<rparr>], 2)"
  by code_simp

subsection \<open>The normalizer: records without a usable road\<close>

lemma fails_bind1: "fails m \<Longrightarrow> fails (bind m f)"
  unfolding fails_def bind_def
proof
  fix n assume a: "\<forall>n. \<exists>e. fst (m n) = Inl e"
  then obtain e where "fst (m n) = Inl e" by blast
  then show "\<exists>e. fst (case m n of (Inl e, n') \<Rightarrow> (Inl e, n') | (Inr x, n') \<Rightarrow> f x n') = Inl e"
    by (cases "m n") auto
qed

lemma fails_bind2: "(\<And>x. fails (f x)) \<Longrightarrow> fails (bind m f)"
  unfolding fails_def bind_def
proof
  fix n assume a: "\<And>x. \<forall>n. \<exists>e. fst (f x n) = Inl e"
  show "\<exists>e. fst (case m n of (Inl e, n') \<Rightarrow> (Inl e, n') | (Inr x, n') \<Rightarrow> f x n') = Inl e"
  proof (cases "m n")
    case (Pair r n1)
    then show ?thesis using a by (cases r) auto
  qed
qed

lemma fails_forEach: "x \<in> set xs \<Longrightarrow> fails (f x) \<Longrightarrow> fails (forEach f xs)"
proof (induction xs)
  case Nil
  then show ?case by simp
next
  case (Cons y ys)
  show ?case
  proof (cases "x = y")
    case True
    with Cons.prems show ?thesis by (simp add: fails_bind1)
  next
    case False
    with Cons have "fails (forEach f ys)" by simp
    then show ?thesis by (simp add: fails_bind1 fails_bind2)
  qed
qed

lemma toClean_road_error:
  assumes "\<forall>r. rd \<noteq> Some (JStr r)"
  shows "fst (toClean E raw bucket rd n) = Inl ZodError"
proof -
  obtain i m where i: "idOf E raw n = (Inr i, m)"
    using idOf_Inr by blast
  have p: "CleanIncident_parse x = Inl ZodError" if "in_road x = rd" for x
    using assms that unfolding CleanIncident_parse_def
    by (auto split: option.splits json.splits)
  show ?thesis
    unfolding toClean_def Let_def bind_def lift_def i
    by (simp add: p)
qed

lemma fails_toClean: "\<forall>r. rd \<noteq> Some (JStr r) \<Longrightarrow> fails (toClean E raw bucket rd)"
  unfolding fails_def using toClean_road_error by blast

lemma fails_pushItem: "\<forall>r. rd \<noteq> Some (JStr r) \<Longrightarrow> fails (pushItem E bucket rd a b item)"
  unfolding pushItem_def
  by (intro fails_bind2 fails_bind1 fails_toClean)

lemma fails_itemsOf:
  assumes "\<forall>r. rd \<noteq> Some (JStr r)" "elements (get seg k) = Inr (x # xs)"
  shows "fails (itemsOf E bucket rd a b (JObj seg) k)"
  unfolding itemsOf_def using assms
  by (simp add: fails_bind1 fails_pushItem)

lemma fails_segmentItems:
  assumes "\<forall>r. rd \<noteq> Some (JStr r)" "k \<in> {''jams'', ''roadworks'', ''radars''}"
    "elements (get seg k) = Inr (x # xs)"
  shows "fails (segmentItems E rd (JObj seg))"
proof -
  from assms(2) consider "k = ''jams''" | "k = ''roadworks''" | "k = ''radars''" by blast
  then show ?thesis
  proof cases
    case 1
    with assms show ?thesis unfolding segmentItems_def Let_def
      by (simp add: fails_bind1 fails_itemsOf)
  next
    case 2
    with assms show ?thesis unfolding segmentItems_def Let_def
      by (simp add: fails_bind1 fails_bind2 fails_itemsOf)
  next
    case 3
    with assms show ?thesis unfolding segmentItems_def Let_def
      by (simp add: fails_bind1 fails_bind2 fails_itemsOf)
  qed
qed

lemma fails_roadItems:
  assumes "\<forall>r. get kvs ''road'' \<noteq> Some (JStr r)" "elements (get kvs ''segments'') = Inr segs"
    "JObj seg \<in> set segs" "k \<in> {''jams'', ''roadworks'', ''radars''}"
    "elements (get seg k) = Inr (x # xs)"
  shows "fails (roadItems E (JObj kvs))"
  unfolding roadItems_def using assms
  by (simp add: fails_forEach [OF assms(3)] fails_segmentItems)

lemma fails_normalize:
  assumes "getProp (Some js) ''roads'' = Inr v" "elements v = Inr entries"
    "JObj kvs \<in> set entries"
    "\<forall>r. get kvs ''road'' \<noteq> Some (JStr r)" "elements (get kvs ''segments'') = Inr segs"
    "JObj seg \<in> set segs" "k \<in> {''jams'', ''roadworks'', ''radars''}"
    "elements (get seg k) = Inr (x # xs)"
  shows "fails (normalizeFeed E js)"
  unfolding normalizeFeed_def flatten_def using assms
  by (simp add: fails_bind1 fails_forEach [OF assms(3)] fails_roadItems)

text \<open>
  Claim C3, as the code has it. A record whose road is missing or is not a text is
  not skipped: normalizing it throws the schema's error, and so does normalizing a
  payload that holds such a record (a road entry without a usable road that has an
  item in a list of one of its segments). Every record that is emitted has exactly
  the text of its road entry as its road, the empty text included.
\<close>

theorem unusable_road_raises:
  "((\<forall>r. rd \<noteq> Some (JStr r)) \<longrightarrow> fst (toClean E raw bucket rd n) = Inl ZodError) \<and>
   (toClean E raw bucket rd n = (Inr c, n') \<longrightarrow> rd = Some (JStr (road c))) \<and>
   (getProp (Some js) ''roads'' = Inr v \<and> elements v = Inr entries \<and>
    JObj kvs \<in> set entries \<and> (\<forall>r. get kvs ''road'' \<noteq> Some (JStr r)) \<and>
    elements (get kvs ''segments'') = Inr segs \<and> JObj seg \<in> set segs \<and>
    k \<in> {''jams'', ''roadworks'', ''radars''} \<and> elements (get seg k) = Inr (x # xs) \<longrightarrow>
    (\<exists>e. fst (normalizeFeed E js n) = Inl e))"
proof (intro conjI impI)
  assume "\<forall>r. rd \<noteq> Some (JStr r)"
  then show "fst (toClean E raw bucket rd n) = Inl ZodError"
    by (rule toClean_road_error)
next
  assume a: "toClean E raw bucket rd n = (Inr c, n')"
  from toClean_parse [OF a] obtain y where "CleanIncident_parse y = Inr c" "in_road y = rd"
    by blast
  with parse_Inr(1) [of y c] show "rd = Some (JStr (road c))" by simp
next
  assume "getProp (Some js) ''roads'' = Inr v \<and> elements v = Inr entries \<and>
    JObj kvs \<in> set entries \<and> (\<forall>r. get kvs ''road'' \<noteq> Some (JStr r)) \<and>
    elements (get kvs ''segments'') = Inr segs \<and> JObj seg \<in> set segs \<and>
    k \<in> {''jams'', ''roadworks'', ''radars''} \<and> elements (get seg k) = Inr (x # xs)"
  then have "fails (normalizeFeed E js)"
    using fails_normalize [of js v entries kvs segs seg k x xs E] by blast
  then show "\<exists>e. fst (normalizeFeed E js n) = Inl e"
    unfolding fails_def by blast
qed

theorem unusable_road_raises_witness:
  "fst (toClean demoEnv [(''id'', JNum 1)] TrafficJams None 0) = Inl ZodError \<and>
   (\<exists>e. fst (normalizeFeed demoEnv feedWithoutRoad 0) = Inl e) \<and>
   toClean demoEnv [(''id'', JNum 1), (''location'', JStr ''Utrecht'')] TrafficJams (Some (JStr [])) 0 =
     (Inr \<lparr>id' = ''1'', road = [], location = ''Utrecht'', category = Congestion,
           status = Open, closure = None, delay = None, startISO = None\<rparr>, 0) \<and>
   Some (JStr []) =
     Some (JStr (road \<lparr>id' = ''1'', road = [], location = ''Utrecht'', category = Congestion,
                       status = Open, closure = None, delay = None, startISO = None\<rparr>))"
proof -
  have t: "toClean demoEnv [(''id'', JNum 1), (''location'', JStr ''Utrecht'')] TrafficJams
        (Some (JStr [])) 0 =
     (Inr \<lparr>id' = ''1'', road = [], location = ''Utrecht'', category = Congestion,
           status = Open, closure = None, delay = None, startISO = None\<rparr>, 0)"
    by code_simp
  from unusable_road_raises
    [where rd = "Some (JStr [])" and E = demoEnv
       and raw = "[(''id'', JNum 1), (''location'', JStr ''Utrecht'')]" and bucket = TrafficJams
       and n = 0 and n' = 0
       and c = "\<lparr>id' = ''1'', road = [], location = ''Utrecht'', category = Congestion,
                status = Open, closure = None, delay = None, startISO = None\<rparr>"]
    t
  have u: "Some (JStr []) =
     Some (JStr (road \<lparr>id' = ''1'', road = [], location = ''Utrecht'', category = Congestion,
                       status = Open, closure = None, delay = None, startISO = None\<rparr>))"
    by blast
  have a: "\<forall>r. (None :: jsval) \<noteq> Some (JStr r)" by simp
  have b: "getProp (Some feedWithoutRoad) ''roads'' =
      Inr (Some (JArr [JObj [(''segments'', JArr [JObj [(''jams'', JArr [JObj [(''id'', JNum 1), (''delay'', JNum 120)]])]])]]))"
    by code_simp
  have c: "\<forall>r. get [(''segments'', JArr [JObj [(''jams'', JArr [JObj [(''id'', JNum 1), (''delay'', JNum 120)]])]])] ''road'' \<noteq> Some (JStr r)"
    by (simp add: get_def)
  have d: "elements (get [(''segments'', JArr [JObj [(''jams'', JArr [JObj [(''id'', JNum 1), (''delay'', JNum 120)]])]])] ''segments'') =
      Inr [JObj [(''jams'', JArr [JObj [(''id'', JNum 1), (''delay'', JNum 120)]])]]"
    by (simp add: get_def)
  have e: "elements (get [(''jams'', JArr [JObj [(''id'', JNum 1), (''delay'', JNum 120)]])] ''jams'') =
      Inr [JObj [(''id'', JNum 1), (''delay'', JNum 120)]]"
    by (simp add: get_def)
  have f: "elements (Some (JArr [JObj [(''segments'', JArr [JObj [(''jams'', JArr [JObj [(''id'', JNum 1), (''delay'', JNum 120)]])]])]])) =
      Inr [JObj [(''segments'', JArr [JObj [(''jams'', JArr [JObj [(''id'', JNum 1), (''delay'', JNum 120)]])]])]]"
    by simp
  from unusable_road_raises
    [where rd = None and E = demoEnv and raw = "[(''id'', JNum 1)]" and bucket = TrafficJams
       and n = 0 and js = feedWithoutRoad
       and v = "Some (JArr [JObj [(''segments'', JArr [JObj [(''jams'', JArr [JObj [(''id'', JNum 1), (''delay'', JNum 120)]])]])]])"
       and entries = "[JObj [(''segments'', JArr [JObj [(''jams'', JArr [JObj [(''id'', JNum 1), (''delay'', JNum 120)]])]])]]"
       and kvs = "[(''segments'', JArr [JObj [(''jams'', JArr [JObj [(''id'', JNum 1), (''delay'', JNum 120)]])]])]"
       and segs = "[JObj [(''jams'', JArr [JObj [(''id'', JNum 1), (''delay'', JNum 120)]])]]"
       and seg = "[(''jams'', JArr [JObj [(''id'', JNum 1), (''delay'', JNum 120)]])]"
       and k = "''jams''" and x = "JObj [(''id'', JNum 1), (''delay'', JNum 120)]" and xs = "[]"]
    a b c d e f
  have "fst (toClean demoEnv [(''id'', JNum 1)] TrafficJams None 0) = Inl ZodError \<and>
   (\<exists>e. fst (normalizeFeed demoEnv feedWithoutRoad 0) = Inl e)"
    by simp
  with t u show ?thesis by blast
qed

text \<open>The claim as it was stated fails: the payload with a road entry without
  \<^verbatim>\<open>road\<close> makes the normalizer, and \<^verbatim>\<open>fetchIncidents\<close> with it, throw; the payload
  with an empty road is emitted with the empty road.\<close>

theorem unusable_road_counterexample:
  "normalizeFeed demoEnv feedWithoutRoad 0 = (Inl ZodError, 0) \<and>
   fst (fetchIncidents (feedEnv feedWithoutRoad noEntities) coldWorld) = Inl ZodError \<and>
   normalizeFeed demoEnv feedWithEmptyRoad 0 =
     (Inr [\<lparr>id' = ''1'', road = [], location = '' '' @ arrow, category = Congestion,
            status = Open, closure = None, delay = Some 2, startISO = None\<rparr>], 0)"
  by code_simp

subsection \<open>The cache\<close>

lemma fetchIncidents_llm_update:
  "fetchIncidents E (w\<lparr>llm_calls := l\<rparr>) =
     (fst (fetchIncidents E w), (snd (fetchIncidents E w))\<lparr>llm_calls := l\<rparr>)"
  unfolding fetchIncidents_def Let_def
  by (simp split: option.splits prod.splits response.splits sum.splits)

lemma fetchIncidents_hit:
  assumes "cache w = Some (ts, data)" "Date_now E (clock_reads w) - ts < 60000"
  shows "fetchIncidents E w = (Inr data, w\<lparr>clock_reads := Suc (clock_reads w)\<rparr>)"
  using assms unfolding fetchIncidents_def Let_def by simp

lemma fetchIncidents_refresh:
  assumes "cache w = None \<or> (\<exists>ts data. cache w = Some (ts, data) \<and> \<not> Date_now E (clock_reads w) - ts < 60000)"
    and "fetchIncidents E w = (Inr xs, w1)"
  shows "fetch_calls w1 = Suc (fetch_calls w) \<and> (\<exists>t. cache w1 = Some (t, xs))"
  using assms unfolding fetchIncidents_def Let_def
  by (auto split: option.splits prod.splits response.splits sum.splits if_splits)

text \<open>
  Claim C5. In every state whose cache entry is younger than 60 seconds,
  \<^verbatim>\<open>fetchIncidents\<close> returns the stored list, makes no request to the feed and leaves
  the cache entry as it is. So of two consecutive calls, the first of which finds no
  fresh entry and stores one, and the second of which comes within the window of that
  entry, only the first makes a request: one request in all, and the same list twice.
\<close>

theorem cache_within_window:
  "(cache w = Some (ts, data) \<and> Date_now E (clock_reads w) - ts < 60000 \<longrightarrow>
      fst (fetchIncidents E w) = Inr data \<and>
      fetch_calls (snd (fetchIncidents E w)) = fetch_calls w \<and>
      cache (snd (fetchIncidents E w)) = cache w) \<and>
   ((cache w = None \<or>
       (\<exists>ts data. cache w = Some (ts, data) \<and> \<not> Date_now E (clock_reads w) - ts < 60000)) \<and>
     fetchIncidents E w = (Inr xs, w1) \<and>
     cache w1 = Some (ts1, xs1) \<and> Date_now E (clock_reads w1) - ts1 < 60000 \<longrightarrow>
       fst (fetchIncidents E w1) = Inr xs \<and>
       fetch_calls (snd (fetchIncidents E w1)) = fetch_calls w + 1)"
proof (intro conjI impI)
  assume a: "cache w = Some (ts, data) \<and> Date_now E (clock_reads w) - ts < 60000"
  then have h: "fetchIncidents E w = (Inr data, w\<lparr>clock_reads := Suc (clock_reads w)\<rparr>)"
    by (simp add: fetchIncidents_hit)
  show "fst (fetchIncidents E w) = Inr data" by (simp add: h)
  show "fetch_calls (snd (fetchIncidents E w)) = fetch_calls w" by (simp add: h)
  show "cache (snd (fetchIncidents E w)) = cache w" by (simp add: h)
next
  assume a: "(cache w = None \<or>
       (\<exists>ts data. cache w = Some (ts, data) \<and> \<not> Date_now E (clock_reads w) - ts < 60000)) \<and>
     fetchIncidents E w = (Inr xs, w1) \<and>
     cache w1 = Some (ts1, xs1) \<and> Date_now E (clock_reads w1) - ts1 < 60000"
  then have r: "fetch_calls w1 = Suc (fetch_calls w)" "\<exists>t. cache w1 = Some (t, xs)"
    using fetchIncidents_refresh [of w E xs w1] by blast+
  with a have x: "xs1 = xs" by auto
  from a have h: "fetchIncidents E w1 = (Inr xs1, w1\<lparr>clock_reads := Suc (clock_reads w1)\<rparr>)"
    by (simp add: fetchIncidents_hit)
  show "fst (fetchIncidents E w1) = Inr xs" by (simp add: h x)
  show "fetch_calls (snd (fetchIncidents E w1)) = fetch_calls w + 1" by (simp add: h r)
qed

theorem cache_within_window_witness:
  "fetchIncidents (feedEnv a2Feed noEntities) coldWorld = (Inr [a2Accident, a2RoadWork], warmWorld) \<and>
   fst (fetchIncidents (feedEnv a2Feed noEntities) warmWorld) = Inr [a2Accident, a2RoadWork] \<and>
   fetch_calls (snd (fetchIncidents (feedEnv a2Feed noEntities) warmWorld)) = fetch_calls coldWorld + 1 \<and>
   fetch_calls (snd (fetchIncidents (feedEnv a2Feed noEntities) warmWorld)) = fetch_calls warmWorld \<and>
   cache (snd (fetchIncidents (feedEnv a2Feed noEntities) warmWorld)) = cache warmWorld"
proof -
  have c: "cache coldWorld = None"
    by (simp add: coldWorld_def)
  have f: "fetchIncidents (feedEnv a2Feed noEntities) coldWorld =
      (Inr [a2Accident, a2RoadWork], warmWorld)"
    by code_simp
  have k: "cache warmWorld = Some (0, [a2Accident, a2RoadWork])"
    by (simp add: warmWorld_def)
  have d: "Date_now (feedEnv a2Feed noEntities) (clock_reads warmWorld) - 0 < 60000"
    by (simp add: warmWorld_def feedEnv_def demoEnv_def)
  from cache_within_window
    [where E = "feedEnv a2Feed noEntities" and w = coldWorld and xs = "[a2Accident, a2RoadWork]"
       and ?w1.0 = warmWorld and ?ts1.0 = 0 and ?xs1.0 = "[a2Accident, a2RoadWork]"]
    cache_within_window
    [where E = "feedEnv a2Feed noEntities" and w = warmWorld and ts = 0
       and data = "[a2Accident, a2RoadWork]"]
    c f k d
  show ?thesis by blast
qed

subsection \<open>The router\<close>

lemma categoryName_listed:
  "categoryName c = ''accident'' \<or> categoryName c = ''construction'' \<or>
   categoryName c = ''congestion'' \<or> categoryName c = ''obstruction'' \<or>
   categoryName c = ''weather'' \<longleftrightarrow> c \<noteq> Other"
  by (cases c) simp_all

lemma getReply_answer:
  assumes q: "trim query \<noteq> []" "\<not> greetingRE (trim query)"
    and f: "fetchIncidents E w = (Inr allIncidents, w2)"
    and e: "ents = extractEntities E (preprocessQuery (trim query) history) history"
    and b: "roads ents \<noteq> None \<or> categories ents \<noteq> None"
  shows "getReply E query history w =
     (Inr (answerFromIncidents E (trim query)
            (filter (\<lambda>i. roadWanted ents i \<and> categoryWanted ents i) allIncidents) history ents),
      w2\<lparr>llm_calls := llm_calls w @
            [CallExtract (preprocessQuery (trim query) history) history,
             CallAnswer (trim query)
               (filter (\<lambda>i. roadWanted ents i \<and> categoryWanted ents i) allIncidents) history ents]\<rparr>)"
proof -
  define rel1 where "rel1 =
     (case roads ents of
        None \<Rightarrow> allIncidents
      | Some rs \<Rightarrow>
          if length rs > 0
          then filter (\<lambda>i. toUpperCase (road i) \<in> set (map toUpperCase rs)) allIncidents
          else allIncidents)"
  define rel2 where "rel2 =
     (case categories ents of
        None \<Rightarrow> rel1
      | Some cs \<Rightarrow>
          if length cs > 0
          then filter (\<lambda>i. categoryName (category i) \<in>
                  set (if ''all_categories'' \<in> set cs
                       then [''accident'', ''construction'', ''congestion'', ''obstruction'', ''weather'']
                       else cs)) rel1
          else rel1)"
  have r1: "rel1 = filter (roadWanted ents) allIncidents"
    unfolding rel1_def roadWanted_def
    by (auto split: option.splits)
  have r2: "rel2 = filter (categoryWanted ents) rel1"
    unfolding rel2_def categoryWanted_def
    by (auto simp: categoryName_listed split: option.splits)
  have r: "rel2 = filter (\<lambda>i. roadWanted ents i \<and> categoryWanted ents i) allIncidents"
    unfolding r2 r1 by (simp add: conj_commute)
  have "getReply E query history w =
     (Inr (answerFromIncidents E (trim query) rel2 history ents),
      w2\<lparr>llm_calls := llm_calls w @
            [CallExtract (preprocessQuery (trim query) history) history,
             CallAnswer (trim query) rel2 history ents]\<rparr>)"
    using q b unfolding getReply_def Let_def fetchIncidents_llm_update f rel2_def rel1_def e
    by simp
  then show ?thesis unfolding r .
qed

text \<open>
  Claim C6. When the extracted entities hold roads or categories, the router filters
  the full set of incidents before it calls the answer capability: the incidents
  handed over are those that pass the road filter and the category filter, both
  together when both are given.
\<close>

theorem getReply_filters:
  assumes "trim query \<noteq> []" and "\<not> greetingRE (trim query)"
    and "fetchIncidents E w = (Inr allIncidents, w2)"
    and "ents = extractEntities E (preprocessQuery (trim query) history) history"
    and "roads ents \<noteq> None \<or> categories ents \<noteq> None"
  shows "\<exists>rel.
     rel = filter (\<lambda>i. roadWanted ents i \<and> categoryWanted ents i) allIncidents \<and>
     fst (getReply E query history w) = Inr (answerFromIncidents E (trim query) rel history ents) \<and>
     llm_calls (snd (getReply E query history w)) =
       llm_calls w @ [CallExtract (preprocessQuery (trim query) history) history,
                      CallAnswer (trim query) rel history ents]"
  using getReply_answer [OF assms] by simp

theorem getReply_filters_witness:
  "llm_calls (snd (getReply
       (feedEnv a2Feed \<lparr>roads = Some [''a2''], categories = Some [''construction''],
                        origin = None, destination = None\<rparr>)
       ''Road works on A2?'' [] coldWorld)) =
     [CallExtract ''construction on A2?'' [],
      CallAnswer ''Road works on A2?'' [a2RoadWork] []
        \<lparr>roads = Some [''a2''], categories = Some [''construction''],
         origin = None, destination = None\<rparr>]"
proof -
  let ?ents = "\<lparr>roads = Some [''a2''], categories = Some [''construction''],
                 origin = None, destination = None\<rparr>"
  have q: "trim ''Road works on A2?'' = ''Road works on A2?''"
    by code_simp
  have g: "\<not> greetingRE ''Road works on A2?''"
    by code_simp
  have p: "preprocessQuery ''Road works on A2?'' [] = ''construction on A2?''"
    by code_simp
  have f: "fetchIncidents (feedEnv a2Feed ?ents) coldWorld = (Inr [a2Accident, a2RoadWork], warmWorld)"
    by code_simp
  have e: "?ents = extractEntities (feedEnv a2Feed ?ents) (preprocessQuery (trim ''Road works on A2?'') []) []"
    by (simp add: feedEnv_def)
  have r: "filter (\<lambda>i. roadWanted ?ents i \<and> categoryWanted ?ents i) [a2Accident, a2RoadWork] =
      [a2RoadWork]"
    by code_simp
  have l: "llm_calls coldWorld = []"
    by (simp add: coldWorld_def)
  from getReply_filters
    [where query = "''Road works on A2?''" and E = "feedEnv a2Feed ?ents" and w = coldWorld
       and allIncidents = "[a2Accident, a2RoadWork]" and ?w2.0 = warmWorld and ents = ?ents
       and history = "[]"]
    g f e
  show ?thesis unfolding q p r l by simp
qed

text \<open>
  Claim C10, as the code has it. When the extracted \<^verbatim>\<open>roads\<close> or \<^verbatim>\<open>categories\<close> is an
  empty list, the router still takes the branch that filters and answers, and not
  the route summary, whatever origin and destination are. The empty list applies no
  filter of its own: the incidents handed to the answer capability are the full set
  filtered by the other list alone, and the full set itself when the other list is
  absent or empty too.
\<close>

theorem empty_list_filters_nothing:
  assumes "trim query \<noteq> []" and "\<not> greetingRE (trim query)"
    and "fetchIncidents E w = (Inr allIncidents, w2)"
    and "ents = extractEntities E (preprocessQuery (trim query) history) history"
    and "roads ents = Some [] \<or> categories ents = Some []"
  shows "\<exists>rel.
     fst (getReply E query history w) = Inr (answerFromIncidents E (trim query) rel history ents) \<and>
     llm_calls (snd (getReply E query history w)) =
       llm_calls w @ [CallExtract (preprocessQuery (trim query) history) history,
                      CallAnswer (trim query) rel history ents] \<and>
     (roads ents = Some [] \<longrightarrow> rel = filter (categoryWanted ents) allIncidents) \<and>
     (categories ents = Some [] \<longrightarrow> rel = filter (roadWanted ents) allIncidents) \<and>
     ((roads ents = None \<or> roads ents = Some []) \<and>
      (categories ents = None \<or> categories ents = Some []) \<longrightarrow> rel = allIncidents)"
proof -
  from assms(5) have b: "roads ents \<noteq> None \<or> categories ents \<noteq> None" by auto
  have 1: "roads ents = Some [] \<Longrightarrow>
      filter (\<lambda>i. roadWanted ents i \<and> categoryWanted ents i) allIncidents =
      filter (categoryWanted ents) allIncidents"
    by (simp add: roadWanted_def)
  have 2: "categories ents = Some [] \<Longrightarrow>
      filter (\<lambda>i. roadWanted ents i \<and> categoryWanted ents i) allIncidents =
      filter (roadWanted ents) allIncidents"
    by (simp add: categoryWanted_def)
  have 3: "(roads ents = None \<or> roads ents = Some []) \<and>
      (categories ents = None \<or> categories ents = Some []) \<Longrightarrow>
      filter (\<lambda>i. roadWanted ents i \<and> categoryWanted ents i) allIncidents = allIncidents"
    by (auto simp: roadWanted_def categoryWanted_def)
  from getReply_answer [OF assms(1-4) b] 1 2 3 show ?thesis
    by simp
qed

theorem empty_list_filters_nothing_witness:
  "llm_calls (snd (getReply
       (feedEnv a2Feed \<lparr>roads = Some [], categories = None,
                        origin = Some ''Amsterdam'', destination = Some ''Rotterdam''\<rparr>)
       ''Amsterdam to Rotterdam?'' [] coldWorld)) =
     [CallExtract ''Amsterdam to Rotterdam?'' [],
      CallAnswer ''Amsterdam to Rotterdam?'' [a2Accident, a2RoadWork] []
        \<lparr>roads = Some [], categories = None,
         origin = Some ''Amsterdam'', destination = Some ''Rotterdam''\<rparr>]"
proof -
  let ?ents = "\<lparr>roads = Some [], categories = None,
                 origin = Some ''Amsterdam'', destination = Some ''Rotterdam''\<rparr>"
  have q: "trim ''Amsterdam to Rotterdam?'' = ''Amsterdam to Rotterdam?''"
    by code_simp
  have g: "\<not> greetingRE ''Amsterdam to Rotterdam?''"
    by code_simp
  have p: "preprocessQuery ''Amsterdam to Rotterdam?'' [] = ''Amsterdam to Rotterdam?''"
    by code_simp
  have f: "fetchIncidents (feedEnv a2Feed ?ents) coldWorld = (Inr [a2Accident, a2RoadWork], warmWorld)"
    by code_simp
  have e: "?ents = extractEntities (feedEnv a2Feed ?ents) (preprocessQuery (trim ''Amsterdam to Rotterdam?'') []) []"
    by (simp add: feedEnv_def)
  have l: "llm_calls coldWorld = []"
    by (simp add: coldWorld_def)
  from empty_list_filters_nothing
    [where query = "''Amsterdam to Rotterdam?''" and E = "feedEnv a2Feed ?ents" and w = coldWorld
       and allIncidents = "[a2Accident, a2RoadWork]" and ?w2.0 = warmWorld and ents = ?ents
       and history = "[]"]
    g f e
  show ?thesis unfolding q p l by auto
qed

text \<open>The claim as it was stated fails: with an empty list of roads and the category
  \<^verbatim>\<open>construction\<close>, the category filter is still applied, and the answer capability
  receives the road work alone, not the full set of two incidents that the cache
  holds.\<close>

theorem empty_list_counterexample:
  "getReply (feedEnv a2Feed \<lparr>roads = Some [], categories = Some [''construction''],
                             origin = None, destination = None\<rparr>)
     ''A2?'' [] coldWorld =
   (Inr ''answer'',
    \<lparr>cache = Some (0, [a2Accident, a2RoadWork]), clock_reads = 1, fetch_calls = 1, uuid_calls = 0,
     llm_calls =
       [CallExtract ''A2?'' [],
        CallAnswer ''A2?'' [a2RoadWork] []
          \<lparr>roads = Some [], categories = Some [''construction''],
           origin = None, destination = None\<rparr>]\<rparr>)"
  by code_simp

text \<open>
  Claim C1, as the code has it. When the retrieval of the incidents fails on a turn
  whose query is neither blank nor a greeting, \<^verbatim>\<open>getReply\<close> has made exactly one call
  to the model, the extraction of the entities, which precedes the retrieval; it
  calls none of the answer, route summary and general chat capabilities.
\<close>

theorem failed_fetch_model_calls:
  assumes "trim query \<noteq> []" and "\<not> greetingRE (trim query)"
    and "fst (fetchIncidents E w) = Inl e"
  shows "llm_calls (snd (getReply E query history w)) =
           llm_calls w @ [CallExtract (preprocessQuery (trim query) history) history]"
proof -
  obtain r w2 where f: "fetchIncidents E w = (r, w2)"
    by (cases "fetchIncidents E w")
  with assms(3) have r: "r = Inl e" by simp
  show ?thesis
    using assms(1,2) unfolding getReply_def Let_def fetchIncidents_llm_update f r
    by simp
qed

theorem failed_fetch_model_calls_witness:
  "fst (fetchIncidents demoEnv coldWorld) = Inl NetworkError \<and>
   llm_calls (snd (getReply demoEnv ''Any jams on the A2?'' [] coldWorld)) =
     [CallExtract ''Any congestion on the A2?'' []]"
proof -
  have q: "trim ''Any jams on the A2?'' = ''Any jams on the A2?''"
    by code_simp
  have g: "\<not> greetingRE ''Any jams on the A2?''"
    by code_simp
  have p: "preprocessQuery ''Any jams on the A2?'' [] = ''Any congestion on the A2?''"
    by code_simp
  have f: "fst (fetchIncidents demoEnv coldWorld) = Inl NetworkError"
    by code_simp
  have l: "llm_calls coldWorld = []"
    by (simp add: coldWorld_def)
  from failed_fetch_model_calls
    [where query = "''Any jams on the A2?''" and E = demoEnv and w = coldWorld
       and e = NetworkError and history = "[]"]
    g f
  show ?thesis unfolding q p l by simp
qed

text \<open>The claim as it was stated fails: with the feed unreachable, \<^verbatim>\<open>getReply\<close> throws
  the error of the fetch instead of returning an apology, and it has called the model
  once.\<close>

theorem failed_fetch_counterexample:
  "getReply demoEnv ''Any jams on the A2?'' [] coldWorld =
   (Inl NetworkError,
    \<lparr>cache = None, clock_reads = 0, fetch_calls = 1, uuid_calls = 0,
     llm_calls = [CallExtract ''Any congestion on the A2?'' []]\<rparr>)"
  by code_simp

end
